theory Spec2Isabelle
  imports Complex_Main "HOL-Library.AList"
begin

section \<open>Score normalisation: class PostProcessor\<close>

text \<open>
  The class is modelled twice. The orchestrator below works over the reals: its scores,
  rewards and means are exact, and \<open>process\<close> is the method read in exact arithmetic on
  finite scores, where the two fields that start at \<^verbatim>\<open>float("inf")\<close> and
  \<^verbatim>\<open>float("-inf")\<close> are options (\<open>None\<close> is the infinite start value). What the method does
  on Python floats (rounding, underflow, overflow, infinities and NaN) is modelled by
  \<open>float_process\<close> in the next section, and the properties of the normaliser are proved
  of that.
\<close>

datatype error =
  ValueError | IndexError | KeyError | TypeError | ZeroDivisionError | OverflowError

record PostProcessor =
  pp_min :: "real option"
  pp_max :: "real option"
  pp_sum :: real
  pp_sum_sq :: real
  pp_count :: nat
  normalized_scores :: "real list"
  max_history :: int

definition PostProcessor_init :: "int \<Rightarrow> PostProcessor" where
  "PostProcessor_init mh =
     \<lparr>pp_min = None, pp_max = None, pp_sum = 0, pp_sum_sq = 0, pp_count = 0,
      normalized_scores = [], max_history = mh\<rparr>"

text \<open>\<^verbatim>\<open>if score < self._min: self._min = score\<close>, with \<open>None\<close> read as \<open>+inf\<close>.\<close>

definition lower_min :: "real option \<Rightarrow> real \<Rightarrow> real" where
  "lower_min m score = (case m of None \<Rightarrow> score | Some v \<Rightarrow> if score < v then score else v)"

text \<open>\<^verbatim>\<open>if score > self._max: self._max = score\<close>, with \<open>None\<close> read as \<open>-inf\<close>.\<close>

definition raise_max :: "real option \<Rightarrow> real \<Rightarrow> real" where
  "raise_max m score = (case m of None \<Rightarrow> score | Some v \<Rightarrow> if score > v then score else v)"

text \<open>\<^verbatim>\<open>append\<close> followed by \<^verbatim>\<open>pop(0)\<close> when the list got longer than the bound.\<close>

definition push_bounded :: "int \<Rightarrow> 'a list \<Rightarrow> 'a \<Rightarrow> 'a list" where
  "push_bounded bound xs x =
     (let ys = xs @ [x] in if int (length ys) > bound then tl ys else ys)"

definition process :: "PostProcessor \<Rightarrow> real \<Rightarrow> real \<times> PostProcessor" where
  "process p score =
     (let mn = lower_min (pp_min p) score;
          mx = raise_max (pp_max p) score;
          span = mx - mn;
          normalized = (if span = 0 then 0 else (score - mn) / span)
      in (normalized,
          p\<lparr>pp_min := Some mn, pp_max := Some mx,
            pp_count := pp_count p + 1,
            pp_sum := pp_sum p + score,
            pp_sum_sq := pp_sum_sq p + score ^ 2,
            normalized_scores := push_bounded (max_history p) (normalized_scores p) normalized\<rparr>))"

definition pp_mean :: "PostProcessor \<Rightarrow> real" where
  "pp_mean p = (if pp_count p = 0 then 0 else pp_sum p / real (pp_count p))"

definition pp_variance :: "PostProcessor \<Rightarrow> real" where
  "pp_variance p =
     (if pp_count p < 2 then 0
      else pp_sum_sq p / real (pp_count p) - (pp_mean p) ^ 2)"

text \<open>Feeding a whole sequence of raw scores to one normaliser, collecting the outputs.\<close>

fun process_all :: "PostProcessor \<Rightarrow> real list \<Rightarrow> real list \<times> PostProcessor" where
  "process_all p [] = ([], p)"
| "process_all p (x # xs) =
     (let (y, p1) = process p x; (ys, p2) = process_all p1 xs in (y # ys, p2))"

section \<open>Score normalisation on floats\<close>

text \<open>
  A Python float is a finite real, an infinity or NaN. The format is a parameter: \<open>rnd\<close>
  rounds a real result to the nearest representable number (with an unbounded exponent,
  so it may underflow to 0), and a rounded result beyond \<open>fmax\<close> overflows to an infinity.
\<close>

datatype pyfloat = Fin real | PosInf | NegInf | NaN

record float_format =
  rnd :: "real \<Rightarrow> real"
  fmax :: real

definition fl :: "float_format \<Rightarrow> real \<Rightarrow> pyfloat" where
  "fl F x = (let y = rnd F x in if y > fmax F then PosInf else if y < - fmax F then NegInf else Fin y)"

text \<open>The comparison \<^verbatim>\<open>a < b\<close>: false whenever an operand is NaN.\<close>

fun f_less :: "pyfloat \<Rightarrow> pyfloat \<Rightarrow> bool" where
  "f_less NaN _ = False"
| "f_less _ NaN = False"
| "f_less (Fin x) (Fin y) = (x < y)"
| "f_less NegInf NegInf = False"
| "f_less NegInf _ = True"
| "f_less _ NegInf = False"
| "f_less PosInf _ = False"
| "f_less _ PosInf = True"

text \<open>Subtraction and addition, which never raise.\<close>

fun f_sub :: "float_format \<Rightarrow> pyfloat \<Rightarrow> pyfloat \<Rightarrow> pyfloat" where
  "f_sub F NaN _ = NaN"
| "f_sub F _ NaN = NaN"
| "f_sub F (Fin x) (Fin y) = fl F (x - y)"
| "f_sub F PosInf PosInf = NaN"
| "f_sub F NegInf NegInf = NaN"
| "f_sub F PosInf _ = PosInf"
| "f_sub F NegInf _ = NegInf"
| "f_sub F _ PosInf = NegInf"
| "f_sub F _ NegInf = PosInf"

fun f_add :: "float_format \<Rightarrow> pyfloat \<Rightarrow> pyfloat \<Rightarrow> pyfloat" where
  "f_add F NaN _ = NaN"
| "f_add F _ NaN = NaN"
| "f_add F (Fin x) (Fin y) = fl F (x + y)"
| "f_add F PosInf NegInf = NaN"
| "f_add F NegInf PosInf = NaN"
| "f_add F PosInf _ = PosInf"
| "f_add F NegInf _ = NegInf"
| "f_add F _ PosInf = PosInf"
| "f_add F _ NegInf = NegInf"

text \<open>
  \<^verbatim>\<open>score ** 2\<close>: Python raises OverflowError when the power of a finite float leaves
  the float range; an underflow to 0 is not an error.
\<close>

fun f_square :: "float_format \<Rightarrow> pyfloat \<Rightarrow> error + pyfloat" where
  "f_square F NaN = Inr NaN"
| "f_square F PosInf = Inr PosInf"
| "f_square F NegInf = Inr PosInf"
| "f_square F (Fin x) = (case fl F (x * x) of Fin y \<Rightarrow> Inr (Fin y) | _ \<Rightarrow> Inl OverflowError)"

text \<open>\<^verbatim>\<open>a / b\<close>: Python raises ZeroDivisionError on a zero divisor.\<close>

fun f_div :: "float_format \<Rightarrow> pyfloat \<Rightarrow> pyfloat \<Rightarrow> error + pyfloat" where
  "f_div F a (Fin y) =
     (if y = 0 then Inl ZeroDivisionError
      else Inr (case a of Fin x \<Rightarrow> fl F (x / y)
                | PosInf \<Rightarrow> if y > 0 then PosInf else NegInf
                | NegInf \<Rightarrow> if y > 0 then NegInf else PosInf
                | NaN \<Rightarrow> NaN))"
| "f_div F a NaN = Inr NaN"
| "f_div F a b = Inr (case a of Fin x \<Rightarrow> Fin 0 | _ \<Rightarrow> NaN)"

text \<open>The fields of \<^verbatim>\<open>PostProcessor\<close> as floats, with their infinite start values.\<close>

record FloatPostProcessor =
  fp_min :: pyfloat
  fp_max :: pyfloat
  fp_sum :: pyfloat
  fp_sum_sq :: pyfloat
  fp_count :: nat
  fp_normalized_scores :: "pyfloat list"
  fp_max_history :: int

definition FloatPostProcessor_init :: "int \<Rightarrow> FloatPostProcessor" where
  "FloatPostProcessor_init mh =
     \<lparr>fp_min = PosInf, fp_max = NegInf, fp_sum = Fin 0, fp_sum_sq = Fin 0, fp_count = 0,
      fp_normalized_scores = [], fp_max_history = mh\<rparr>"

text \<open>
  \<^verbatim>\<open>PostProcessor.process\<close> on floats. The minimum and the maximum are updated first;
  \<^verbatim>\<open>span == 0\<close> is false for a NaN span.
\<close>

definition float_process ::
  "float_format \<Rightarrow> FloatPostProcessor \<Rightarrow> pyfloat \<Rightarrow> error + (pyfloat \<times> FloatPostProcessor)" where
  "float_process F p score =
     (let mn = (if f_less score (fp_min p) then score else fp_min p);
          mx = (if f_less (fp_max p) score then score else fp_max p)
      in case f_square F score of
           Inl err \<Rightarrow> Inl err
         | Inr sq \<Rightarrow>
            let span = f_sub F mx mn
            in case (if span = Fin 0 then Inr (Fin 0) else f_div F (f_sub F score mn) span) of
                 Inl err \<Rightarrow> Inl err
               | Inr normalized \<Rightarrow>
                   Inr (normalized,
                        p\<lparr>fp_min := mn, fp_max := mx,
                          fp_count := fp_count p + 1,
                          fp_sum := f_add F (fp_sum p) score,
                          fp_sum_sq := f_add F (fp_sum_sq p) sq,
                          fp_normalized_scores :=
                            push_bounded (fp_max_history p) (fp_normalized_scores p) normalized\<rparr>))"

fun float_process_all ::
  "float_format \<Rightarrow> FloatPostProcessor \<Rightarrow> pyfloat list \<Rightarrow> error + (pyfloat list \<times> FloatPostProcessor)" where
  "float_process_all F p [] = Inr ([], p)"
| "float_process_all F p (x # xs) =
     (case float_process F p x of
        Inl err \<Rightarrow> Inl err
      | Inr (y, p1) \<Rightarrow>
         (case float_process_all F p1 xs of
            Inl err \<Rightarrow> Inl err
          | Inr (ys, p2) \<Rightarrow> Inr (y # ys, p2)))"

text \<open>
  What the proofs use of the format, all of it true of IEEE binary64 with rounding to
  nearest: rounding is monotone, 0, 1 and the largest finite number are representable, and
  the largest finite number is at least 4.
\<close>

definition ieee_like :: "float_format \<Rightarrow> bool" where
  "ieee_like F \<longleftrightarrow>
     mono (rnd F) \<and> rnd F 0 = 0 \<and> rnd F 1 = 1 \<and> rnd F (fmax F) = fmax F \<and> 4 \<le> fmax F"

text \<open>
  The states a normaliser reaches on finite scores: nothing seen yet, or a finite minimum
  below a finite maximum, both of them scores whose square did not overflow.
\<close>

definition tracking :: "float_format \<Rightarrow> FloatPostProcessor \<Rightarrow> bool" where
  "tracking F p \<longleftrightarrow>
     (fp_min p = PosInf \<and> fp_max p = NegInf)
     \<or> (\<exists>a b. fp_min p = Fin a \<and> fp_max p = Fin b \<and> a \<le> b
            \<and> rnd F (a * a) \<le> fmax F \<and> rnd F (b * b) \<le> fmax F)"

section \<open>numpy helpers\<close>

text \<open>Index into a one-dimensional array: negative indices count from the end.\<close>

definition np_index :: "nat \<Rightarrow> int \<Rightarrow> nat option" where
  "np_index len i =
     (let j = (if i < 0 then int len + i else i)
      in if 0 \<le> j \<and> j < int len then Some (nat j) else None)"

text \<open>\<^verbatim>\<open>np.mean\<close>; of an empty list numpy yields NaN, which the reals lack (here 0).\<close>

definition np_mean :: "real list \<Rightarrow> real" where
  "np_mean xs = sum_list xs / real (length xs)"

text \<open>\<^verbatim>\<open>np.std\<close>: the population standard deviation.\<close>

definition np_std :: "real list \<Rightarrow> real" where
  "np_std xs = sqrt (np_mean (map (\<lambda>x. (x - np_mean xs) ^ 2) xs))"

text \<open>\<^verbatim>\<open>np.median\<close>: the middle of the sorted values, or the mean of the two middle ones.\<close>

definition np_median :: "real list \<Rightarrow> real" where
  "np_median xs =
     (let ys = sort xs; k = length ys
      in if k = 0 then 0
         else if odd k then ys ! (k div 2)
         else (ys ! (k div 2 - 1) + ys ! (k div 2)) / 2)"

text \<open>
  \<^verbatim>\<open>np.corrcoef(x, y)[0, 1]\<close>: covariance over the product of the deviations, clipped
  to \<open>[-1, 1]\<close>. The callers pass two series of one length and test both deviations
  for being positive first.
\<close>

definition np_corrcoef :: "real list \<Rightarrow> real list \<Rightarrow> real" where
  "np_corrcoef xs ys =
     (let mx = np_mean xs; my = np_mean ys;
          cxy = sum_list (map (\<lambda>(x, y). (x - mx) * (y - my)) (zip xs ys));
          cxx = sum_list (map (\<lambda>x. (x - mx) ^ 2) xs);
          cyy = sum_list (map (\<lambda>y. (y - my) ^ 2) ys)
      in max (-1) (min 1 (cxy / sqrt (cxx * cyy))))"

text \<open>\<^verbatim>\<open>np.clip(x, lo, hi)\<close>.\<close>

definition np_clip :: "real \<Rightarrow> real \<Rightarrow> real \<Rightarrow> real" where
  "np_clip x lo hi = min (max x lo) hi"

text \<open>\<^verbatim>\<open>np.argmin\<close>: the first index of a least element; raises on an empty array.\<close>

fun argmin_from :: "nat \<Rightarrow> real \<Rightarrow> nat \<Rightarrow> real list \<Rightarrow> nat" where
  "argmin_from best bv i [] = best"
| "argmin_from best bv i (x # xs) =
     (if x < bv then argmin_from i x (Suc i) xs else argmin_from best bv (Suc i) xs)"

definition np_argmin :: "real list \<Rightarrow> error + nat" where
  "np_argmin xs = (case xs of [] \<Rightarrow> Inl ValueError | x # r \<Rightarrow> Inr (argmin_from 0 x 1 r))"

text \<open>
  \<^verbatim>\<open>np.argsort\<close>: the indices in ascending order of their values. Ties are kept in index
  order, as numpy's default sort does on the short arrays of a pool (insertion sort
  below 17 elements).
\<close>

definition np_argsort :: "real list \<Rightarrow> nat list" where
  "np_argsort xs = sort_key (\<lambda>i. xs ! i) [0..<length xs]"

text \<open>Python slices \<^verbatim>\<open>xs[:k]\<close> and \<^verbatim>\<open>xs[-k:]\<close> for any integer \<open>k\<close>.\<close>

definition slice_to :: "int \<Rightarrow> 'a list \<Rightarrow> 'a list" where
  "slice_to k xs = (if 0 \<le> k then take (nat k) xs else take (nat (int (length xs) + k)) xs)"

definition slice_last :: "int \<Rightarrow> 'a list \<Rightarrow> 'a list" where
  "slice_last k xs = (if k \<le> 0 then drop (nat (- k)) xs else drop (nat (int (length xs) - k)) xs)"

section \<open>Arm selection: class BanditGate\<close>

record BanditGate =
  bg_n :: "int list"
  bg_mean :: "real list"
  bg_t :: int
  bg_decay :: real

text \<open>\<^verbatim>\<open>np.zeros(n_arms)\<close> raises ValueError on a negative dimension.\<close>

definition BanditGate_init :: "int \<Rightarrow> real \<Rightarrow> error + BanditGate" where
  "BanditGate_init n_arms d =
     (if n_arms < 0 then Inl ValueError
      else Inr \<lparr>bg_n = replicate (nat n_arms) 0, bg_mean = replicate (nat n_arms) 0,
                bg_t = 0, bg_decay = d\<rparr>)"

definition BanditGate_update :: "BanditGate \<Rightarrow> int \<Rightarrow> real \<Rightarrow> error + BanditGate" where
  "BanditGate_update b arm_idx reward =
     (case np_index (length (bg_n b)) arm_idx of
        None \<Rightarrow> Inl IndexError
      | Some i \<Rightarrow>
         (case np_index (length (bg_mean b)) arm_idx of
            None \<Rightarrow> Inl IndexError
          | Some j \<Rightarrow>
              Inr (b\<lparr>bg_t := bg_t b + 1,
                     bg_n := (bg_n b)[i := bg_n b ! i + 1],
                     bg_mean := (bg_mean b)
                        [j := (1 - bg_decay b) * reward + bg_decay b * (bg_mean b ! j)]\<rparr>)))"

text \<open>
  The confidence term \<^verbatim>\<open>np.sqrt(2 * np.log(max(1, self.t)) / np.maximum(1, self.n))\<close>,
  one entry per arm.
\<close>

definition conf :: "BanditGate \<Rightarrow> real list" where
  "conf b = map (\<lambda>k. sqrt (2 * ln (real_of_int (max 1 (bg_t b))) / real_of_int (max 1 k))) (bg_n b)"

text \<open>
  The element-wise operations need both arrays of one shape; the constructor builds them
  so and \<open>BanditGate_update\<close> keeps it. Arrays of different lengths raise ValueError.
\<close>

definition ucb :: "BanditGate \<Rightarrow> error + real list" where
  "ucb b =
     (if length (bg_n b) \<noteq> length (bg_mean b) then Inl ValueError
      else Inr (map (\<lambda>(m, c). m + c) (zip (bg_mean b) (conf b))))"

text \<open>\<^verbatim>\<open>mu.min()\<close> raises ValueError on an empty array.\<close>

definition improvement_z :: "BanditGate \<Rightarrow> error + (real \<times> real \<times> real) list" where
  "improvement_z b =
     (if length (bg_n b) \<noteq> length (bg_mean b) then Inl ValueError
      else if bg_mean b = [] then Inl ValueError
      else let best = Min (set (bg_mean b))
           in Inr (map (\<lambda>(m, c). (best - m, c, if c > 0 then (best - m) / c else 0))
                     (zip (bg_mean b) (conf b))))"

text \<open>\<^verbatim>\<open>scipy.stats.norm.pdf\<close>; the distribution function \<^verbatim>\<open>norm.cdf\<close> is a parameter.\<close>

definition norm_pdf :: "real \<Rightarrow> real" where
  "norm_pdf z = exp (- (z ^ 2) / 2) / sqrt (2 * pi)"

definition ei :: "(real \<Rightarrow> real) \<Rightarrow> BanditGate \<Rightarrow> error + real list" where
  "ei cdf b =
     (case improvement_z b of
        Inl e \<Rightarrow> Inl e
      | Inr izs \<Rightarrow> Inr (map (\<lambda>(imp, c, z). - (imp * cdf z + c * norm_pdf z)) izs))"

definition pi_acq :: "(real \<Rightarrow> real) \<Rightarrow> BanditGate \<Rightarrow> error + real list" where
  "pi_acq cdf b =
     (case improvement_z b of
        Inl e \<Rightarrow> Inl e
      | Inr izs \<Rightarrow> Inr (map (\<lambda>(imp, c, z). - cdf z) izs))"

text \<open>\<^verbatim>\<open>str.upper\<close> on the ASCII letters.\<close>

definition upper_char :: "char \<Rightarrow> char" where
  "upper_char c =
     (let k = (of_char c :: nat) in if 97 \<le> k \<and> k \<le> 122 then char_of (k - 32) else c)"

definition acq :: "(real \<Rightarrow> real) \<Rightarrow> BanditGate \<Rightarrow> string \<Rightarrow> error + real list" where
  "acq cdf b strategy =
     (let strat = map upper_char strategy
      in if strat = ''UCB'' then ucb b
         else if strat = ''EI'' then ei cdf b
         else if strat = ''PI'' then pi_acq cdf b
         else Inl ValueError)"

section \<open>Rewards: class MedianCorrelationRewardCalculator\<close>

record MedianCorrelationRewardCalculator =
  window_size :: int
  model_scores :: "real list list"
  median_scores :: "real list"
  rc_n_models :: "nat option"

definition MedianCorrelationRewardCalculator_init :: "int \<Rightarrow> MedianCorrelationRewardCalculator" where
  "MedianCorrelationRewardCalculator_init w =
     \<lparr>window_size = w, model_scores = [], median_scores = [], rc_n_models = None\<rparr>"

text \<open>\<^verbatim>\<open>for i, score in enumerate(normalized_scores): self.model_scores[i].append(score)\<close>\<close>

fun append_each :: "real list list \<Rightarrow> real list \<Rightarrow> error + real list list" where
  "append_each ms [] = Inr ms"
| "append_each [] (v # vs) = Inl IndexError"
| "append_each (m # ms) (v # vs) =
     (case append_each ms vs of Inl e \<Rightarrow> Inl e | Inr r \<Rightarrow> Inr ((m @ [v]) # r))"

text \<open>\<^verbatim>\<open>for i in range(self.n_models): self.model_scores[i].pop(0)\<close>\<close>

fun pop_each :: "nat \<Rightarrow> real list list \<Rightarrow> error + real list list" where
  "pop_each 0 ms = Inr ms"
| "pop_each (Suc k) [] = Inl IndexError"
| "pop_each (Suc k) (m # ms) =
     (if m = [] then Inl IndexError
      else case pop_each k ms of Inl e \<Rightarrow> Inl e | Inr r \<Rightarrow> Inr (tl m # r))"

definition update_scores ::
  "MedianCorrelationRewardCalculator \<Rightarrow> real list \<Rightarrow> error + MedianCorrelationRewardCalculator" where
  "update_scores rc normalized =
     (let rc1 = (if model_scores rc = []
                 then rc\<lparr>rc_n_models := Some (length normalized),
                         model_scores := replicate (length normalized) []\<rparr>
                 else rc);
          meds = median_scores rc1 @ [np_median normalized]
      in case append_each (model_scores rc1) normalized of
           Inl e \<Rightarrow> Inl e
         | Inr ms \<Rightarrow>
            if int (length meds) > window_size rc1
            then (case rc_n_models rc1 of
                    None \<Rightarrow> Inl TypeError
                  | Some k \<Rightarrow>
                     (case pop_each k ms of
                        Inl e \<Rightarrow> Inl e
                      | Inr ms' \<Rightarrow> Inr (rc1\<lparr>median_scores := tl meds, model_scores := ms'\<rparr>)))
            else Inr (rc1\<lparr>median_scores := meds, model_scores := ms\<rparr>))"

text \<open>One arm's reward: the absolute correlation of its history with the median history.\<close>

definition reward_of :: "real list \<Rightarrow> real list \<Rightarrow> real" where
  "reward_of ms meds =
     \<bar>if np_std ms > 0 \<and> np_std meds > 0 then np_corrcoef ms meds else 0\<bar>"

definition calculate_rewards :: "MedianCorrelationRewardCalculator \<Rightarrow> error + real list" where
  "calculate_rewards rc =
     (if model_scores rc = [] \<or> length (hd (model_scores rc)) < 100
      then Inr (case rc_n_models rc of None \<Rightarrow> [] | Some k \<Rightarrow> replicate k 0)
      else case rc_n_models rc of
             None \<Rightarrow> Inl TypeError
           | Some k \<Rightarrow>
               if k > length (model_scores rc) then Inl IndexError
               else Inr (map (\<lambda>ms. reward_of ms (median_scores rc)) (take k (model_scores rc))))"

section \<open>Scorer variants, configurations and the hyperparameter grids\<close>

datatype variant = HalfSpaceTrees | IForestASD | RobustRandomCutForest | LODA | OnlineIsolationForest

text \<open>
  A parameter value. Python's own \<^verbatim>\<open>int\<close> and \<^verbatim>\<open>float\<close> are kept apart from numpy's
  scalars, because \<^verbatim>\<open>isinstance(current, (int, float))\<close> tells them apart:
  \<^verbatim>\<open>np.float64\<close> is a \<^verbatim>\<open>float\<close>, \<^verbatim>\<open>np.int64\<close> is not an \<^verbatim>\<open>int\<close>.
\<close>

datatype pyval =
    PyInt int | NpInt int | PyFloat real | NpFloat real | PyStr string
  | PyNone | PyVec "real list"

type_synonym params = "(string \<times> pyval) list"

definition num_of :: "pyval \<Rightarrow> real option" where
  "num_of v = (case v of PyInt k \<Rightarrow> Some (real_of_int k) | NpInt k \<Rightarrow> Some (real_of_int k)
               | PyFloat x \<Rightarrow> Some x | NpFloat x \<Rightarrow> Some x | _ \<Rightarrow> None)"

text \<open>\<^verbatim>\<open>isinstance(v, (int, float))\<close> and \<^verbatim>\<open>isinstance(v, int)\<close>.\<close>

definition is_int_or_float :: "pyval \<Rightarrow> bool" where
  "is_int_or_float v = (case v of PyInt _ \<Rightarrow> True | PyFloat _ \<Rightarrow> True | NpFloat _ \<Rightarrow> True | _ \<Rightarrow> False)"

definition is_int :: "pyval \<Rightarrow> bool" where
  "is_int v = (case v of PyInt _ \<Rightarrow> True | _ \<Rightarrow> False)"

text \<open>Python's \<^verbatim>\<open>==\<close>: numbers compare by value, strings by content.\<close>

definition py_eq :: "pyval \<Rightarrow> pyval \<Rightarrow> bool" where
  "py_eq v w =
     (case (num_of v, num_of w) of
        (Some x, Some y) \<Rightarrow> x = y
      | (None, None) \<Rightarrow> (case (v, w) of (PyStr a, PyStr b) \<Rightarrow> a = b
                                       | (PyNone, PyNone) \<Rightarrow> True
                                       | (PyVec a, PyVec b) \<Rightarrow> a = b
                                       | _ \<Rightarrow> False)
      | _ \<Rightarrow> False)"

text \<open>The numpy scalar that \<^verbatim>\<open>np.random.choice\<close> returns for an element of a list.\<close>

definition np_scalar :: "pyval \<Rightarrow> pyval" where
  "np_scalar v = (case v of PyInt k \<Rightarrow> NpInt k | PyFloat x \<Rightarrow> NpFloat x | w \<Rightarrow> w)"

text \<open>Python's \<^verbatim>\<open>round\<close> to an integer: halves go to the even neighbour.\<close>

definition py_round :: "real \<Rightarrow> int" where
  "py_round x =
     (let f = \<lfloor>x\<rfloor>; d = x - real_of_int f
      in if d < 1 / 2 then f else if d > 1 / 2 then f + 1 else if even f then f else f + 1)"

definition ints :: "int list \<Rightarrow> pyval list" where
  "ints ks = map PyInt ks"

definition floats :: "real list \<Rightarrow> pyval list" where
  "floats xs = map PyFloat xs"

definition strs :: "string list \<Rightarrow> pyval list" where
  "strs xs = map PyStr xs"

fun get_hyperparameter_options :: "variant \<Rightarrow> (string \<times> pyval list) list" where
  "get_hyperparameter_options HalfSpaceTrees =
     [(''num_trees'', ints [8, 16, 32, 64, 128]),
      (''max_depth'', ints [5, 8, 10, 12, 15]),
      (''window_size'', ints [50, 100, 150, 200, 250])]"
| "get_hyperparameter_options IForestASD =
     [(''window_size'', ints [512, 1024, 2048, 4096]),
      (''n_estimators'', ints [16, 32, 64, 128]),
      (''max_samples'', ints [64, 128, 256, 512]),
      (''contamination'', floats [5 / 100, 1 / 10, 15 / 100, 2 / 10]),
      (''anomaly_rate_threshold'', floats [1 / 10, 2 / 10, 3 / 10, 4 / 10])]"
| "get_hyperparameter_options RobustRandomCutForest =
     [(''num_trees'', ints [8, 16, 32, 64, 128]),
      (''tree_size'', ints [64, 128, 256, 512]),
      (''shingle_size'', ints [1, 2, 3])]"
| "get_hyperparameter_options LODA =
     [(''num_bins'', ints [50, 100, 150, 200]),
      (''num_random_cuts'', ints [5, 10, 25, 50])]"
| "get_hyperparameter_options OnlineIsolationForest =
     [(''branching_factor'', ints [2, 3, 4]),
      (''split'', strs [''axisparallel'', ''hyperplane'']),
      (''num_trees'', ints [8, 16, 32, 64, 128]),
      (''max_leaf_samples'', ints [16, 32, 64]),
      (''window_size'', ints [512, 1024, 2048, 4096]),
      (''growth_criterion'', strs [''adaptive'', ''depth'', ''size'']),
      (''subsample'', floats [1 / 10, 25 / 100, 5 / 10, 75 / 100, 1])]"

section \<open>External collaborators\<close>

text \<open>
  The libraries the orchestrator calls are parameters of the model: numpy's process-wide
  random generator (a state \<open>'g\<close>, the state that \<^verbatim>\<open>np.random.seed\<close> installs, and one raw
  draw), \<^verbatim>\<open>scipy.stats.truncnorm.rvs\<close> (\<open>None\<close> when it raises ValueError),
  \<^verbatim>\<open>scipy.stats.norm.cdf\<close>, and the scorers of \<^verbatim>\<open>pysad_rust\<close>: their constructor and
  their \<^verbatim>\<open>fit_score_partial\<close> over an internal state \<open>'s\<close> and instances \<open>'x\<close>.
\<close>

record ('g, 's, 'x) externals =
  np_random_seed :: "int \<Rightarrow> 'g"
  np_random_raw :: "'g \<Rightarrow> nat \<times> 'g"
  truncnorm_rvs :: "real \<Rightarrow> real \<Rightarrow> real \<Rightarrow> real \<Rightarrow> 'g \<Rightarrow> real option \<times> 'g"
  norm_cdf :: "real \<Rightarrow> real"
  construct :: "variant \<Rightarrow> params \<Rightarrow> 's"
  scorer_fit_score_partial :: "variant \<Rightarrow> 's \<Rightarrow> 'x \<Rightarrow> real \<times> 's"

text \<open>\<^verbatim>\<open>np.random.choice(a)\<close>: a uniform pick; raises ValueError on an empty list.\<close>

definition choice :: "('g, 's, 'x) externals \<Rightarrow> 'a list \<Rightarrow> 'g \<Rightarrow> error + ('a \<times> 'g)" where
  "choice e xs g =
     (if xs = [] then Inl ValueError
      else let (r, g') = np_random_raw e g in Inr (xs ! (r mod length xs), g'))"

text \<open>
  \<^verbatim>\<open>np.random.choice(a, p=probs)\<close>: raises ValueError on an empty list, a negative
  probability or probabilities that do not sum to 1; picks an element of positive
  probability.
\<close>

definition weighted_choice ::
  "('g, 's, 'x) externals \<Rightarrow> 'a list \<Rightarrow> real list \<Rightarrow> 'g \<Rightarrow> error + ('a \<times> 'g)" where
  "weighted_choice e xs probs g =
     (if xs = [] then Inl ValueError
      else if \<exists>p \<in> set probs. p < 0 then Inl ValueError
      else if sum_list probs \<noteq> 1 then Inl ValueError
      else let support = filter (\<lambda>i. probs ! i > 0) [0..<length xs];
               (r, g') = np_random_raw e g
           in Inr (xs ! (support ! (r mod length support)), g'))"

section \<open>The orchestrator: class AutoSAD\<close>

text \<open>
  \<open>evolve_headers\<close> is the part of standard output the model keeps: the step printed by
  the header line \<^verbatim>\<open>=== evolve @ step ... ===\<close> of each verbose evolution cycle.
\<close>

record 's AutoSAD =
  n_models :: int
  random_state :: int
  verbose :: bool
  acq_strategy :: string
  feature_mins :: pyval
  feature_maxes :: pyval
  models :: "(variant \<times> 's) list"
  model_params :: "params list"
  scores :: "PostProcessor list"
  step :: int
  exploration_std :: real
  bandit :: BanditGate
  reward_calculator :: MedianCorrelationRewardCalculator
  evolve_headers :: "int list"

subsection \<open>The weighted hyperparameter sampler\<close>

text \<open>\<^verbatim>\<open>min(candidates, key=lambda x: abs(x - new))\<close>: the first candidate nearest to \<open>new\<close>.\<close>

definition nearest :: "real \<Rightarrow> (pyval \<times> real) list \<Rightarrow> pyval \<times> real" where
  "nearest new cs = arg_min_list (\<lambda>(c, x). \<bar>x - new\<bar>) cs"

text \<open>The candidates with their numeric values; \<open>None\<close> when one of them is not a number.\<close>

fun numeric_candidates :: "pyval list \<Rightarrow> (pyval \<times> real) list option" where
  "numeric_candidates [] = Some []"
| "numeric_candidates (c # cs) =
     (case (num_of c, numeric_candidates cs) of
        (Some x, Some r) \<Rightarrow> Some ((c, x) # r)
      | _ \<Rightarrow> None)"

definition pwhs_numeric ::
  "('g, 's, 'x) externals \<Rightarrow> pyval \<Rightarrow> real \<Rightarrow> pyval list \<Rightarrow> real \<Rightarrow> 'g \<Rightarrow> error + (pyval \<times> 'g)" where
  "pwhs_numeric e current cur candidates sigma g =
     (case numeric_candidates candidates of
        None \<Rightarrow> Inl TypeError
      | Some cs \<Rightarrow>
         if cs = [] then Inl ValueError
         else
           let nums = map snd cs;
               lo = Min (set nums); hi = Max (set nums);
               std = np_std nums * sigma;
               fallback = (\<lambda>g1. case choice e candidates g1 of
                                   Inl err \<Rightarrow> Inl err
                                 | Inr (c, g2) \<Rightarrow> Inr (np_scalar c, g2))
           in if std \<le> 0 then fallback g
              else case truncnorm_rvs e ((lo - cur) / std) ((hi - cur) / std) cur std g of
                     (None, g1) \<Rightarrow> fallback g1
                   | (Some new, g1) \<Rightarrow>
                       let (c, x) = nearest new cs
                       in Inr (if is_int current then PyInt (py_round x) else c, g1))"

definition pwhs_categorical ::
  "('g, 's, 'x) externals \<Rightarrow> pyval \<Rightarrow> pyval list \<Rightarrow> real \<Rightarrow> 'g \<Rightarrow> error + (pyval \<times> 'g)" where
  "pwhs_categorical e current candidates sigma g =
     (let p_keep = max (1 / 2) (1 - sigma / 2)
      in if length candidates = 1 \<and> (\<exists>v \<in> set candidates. \<not> py_eq v current)
         then Inl ZeroDivisionError
         else
           let probs = map (\<lambda>v. if py_eq v current then p_keep
                                  else (1 - p_keep) / (real (length candidates) - 1)) candidates
           in case weighted_choice e candidates probs g of
                Inl err \<Rightarrow> Inl err
              | Inr (c, g1) \<Rightarrow> Inr (np_scalar c, g1))"

definition pwhs ::
  "('g, 's, 'x) externals \<Rightarrow> pyval \<Rightarrow> pyval list \<Rightarrow> real \<Rightarrow> 'g \<Rightarrow> error + (pyval \<times> 'g)" where
  "pwhs e current candidates sigma g =
     (case (if is_int_or_float current then num_of current else None) of
        Some cur \<Rightarrow> pwhs_numeric e current cur candidates sigma g
      | None \<Rightarrow> pwhs_categorical e current candidates sigma g)"

subsection \<open>Pool initialisation\<close>

definition scaling_names :: "string list" where
  "scaling_names = [''feature_mins'', ''feature_maxes'']"

text \<open>\<^verbatim>\<open>for p, vals in opts.items(): if p not in (...): params[p] = np.random.choice(vals)\<close>\<close>

fun draw_params ::
  "('g, 's, 'x) externals \<Rightarrow> (string \<times> pyval list) list \<Rightarrow> params \<Rightarrow> 'g \<Rightarrow> error + (params \<times> 'g)" where
  "draw_params e [] ps g = Inr (ps, g)"
| "draw_params e ((p, vals) # opts) ps g =
     (if p \<in> set scaling_names then draw_params e opts ps g
      else case choice e vals g of
             Inl err \<Rightarrow> Inl err
           | Inr (v, g1) \<Rightarrow> draw_params e opts (AList.update p (np_scalar v) ps) g1)"

definition with_scaling :: "'s AutoSAD \<Rightarrow> variant \<Rightarrow> params \<Rightarrow> params" where
  "with_scaling a cls ps =
     (if cls = HalfSpaceTrees
      then AList.update ''feature_maxes'' (feature_maxes a)
             (AList.update ''feature_mins'' (feature_mins a) ps)
      else ps)"

definition random_model_with_params ::
  "('g, 's, 'x) externals \<Rightarrow> 's AutoSAD \<Rightarrow> 'g \<Rightarrow> error + (((variant \<times> 's) \<times> params) \<times> 'g)" where
  "random_model_with_params e a g =
     (case choice e [HalfSpaceTrees, IForestASD, RobustRandomCutForest, LODA, OnlineIsolationForest] g of
        Inl err \<Rightarrow> Inl err
      | Inr (cls, g1) \<Rightarrow>
         (case draw_params e (get_hyperparameter_options cls)
                 [(''random_state'', PyInt (random_state a))] g1 of
            Inl err \<Rightarrow> Inl err
          | Inr (ps, g2) \<Rightarrow>
              let ps' = with_scaling a cls ps
              in Inr (((cls, construct e cls ps'), ps'), g2)))"

text \<open>\<^verbatim>\<open>while len(self.models) < self.n_models\<close>: one arm is appended per round.\<close>

fun init_pool ::
  "('g, 's, 'x) externals \<Rightarrow> nat \<Rightarrow> 's AutoSAD \<Rightarrow> 'g \<Rightarrow> error + ('s AutoSAD \<times> 'g)" where
  "init_pool e 0 a g = Inr (a, g)"
| "init_pool e (Suc k) a g =
     (case random_model_with_params e a g of
        Inl err \<Rightarrow> Inl err
      | Inr ((m, p), g1) \<Rightarrow>
          init_pool e k (a\<lparr>models := models a @ [m],
                            model_params := model_params a @ [p],
                            scores := scores a @ [PostProcessor_init 1000]\<rparr>) g1)"

text \<open>
  The constructor. \<^verbatim>\<open>np.random.seed\<close> accepts seeds from 0 to \<open>2^32 - 1\<close> and replaces
  the state of the process-wide generator, whatever it was; the state after the
  construction is returned with the object.
\<close>

definition AutoSAD_init ::
  "('g, 's, 'x) externals \<Rightarrow> int \<Rightarrow> int \<Rightarrow> bool \<Rightarrow> string \<Rightarrow> pyval \<Rightarrow> pyval
     \<Rightarrow> error + ('s AutoSAD \<times> 'g)" where
  "AutoSAD_init e n rs vb strat fmins fmaxes =
     (if rs < 0 \<or> rs \<ge> 2 ^ 32 then Inl ValueError
      else
        let a0 = \<lparr>n_models = n, random_state = rs, verbose = vb, acq_strategy = strat,
                  feature_mins = fmins, feature_maxes = fmaxes,
                  models = [], model_params = [], scores = [], step = 0,
                  exploration_std = 1,
                  bandit = \<lparr>bg_n = [], bg_mean = [], bg_t = 0, bg_decay = 2 / 10\<rparr>,
                  reward_calculator = MedianCorrelationRewardCalculator_init 1000,
                  evolve_headers = []\<rparr>
        in case init_pool e (nat n) a0 (np_random_seed e rs) of
             Inl err \<Rightarrow> Inl err
           | Inr (a1, g) \<Rightarrow>
              (case BanditGate_init n (2 / 10) of
                 Inl err \<Rightarrow> Inl err
               | Inr b \<Rightarrow> Inr (a1\<lparr>bandit := b\<rparr>, g)))"

subsection \<open>Mutation\<close>

text \<open>
  \<^verbatim>\<open>for p, vals in opts.items(): if p in params and p not in (...): new_params[p] = ...\<close>
  The current values are read from \<open>ps\<close>, the configuration of the source arm.
\<close>

fun mutate_params ::
  "('g, 's, 'x) externals \<Rightarrow> real \<Rightarrow> params \<Rightarrow> (string \<times> pyval list) list \<Rightarrow> params \<Rightarrow> 'g
     \<Rightarrow> error + (params \<times> 'g)" where
  "mutate_params e sigma ps [] new_ps g = Inr (new_ps, g)"
| "mutate_params e sigma ps ((p, vals) # opts) new_ps g =
     (case map_of ps p of
        None \<Rightarrow> mutate_params e sigma ps opts new_ps g
      | Some current \<Rightarrow>
          if p \<in> set scaling_names then mutate_params e sigma ps opts new_ps g
          else case pwhs e current vals sigma g of
                 Inl err \<Rightarrow> Inl err
               | Inr (v, g1) \<Rightarrow> mutate_params e sigma ps opts (AList.update p v new_ps) g1)"

definition mutate ::
  "('g, 's, 'x) externals \<Rightarrow> 's AutoSAD \<Rightarrow> (variant \<times> 's) \<Rightarrow> params \<Rightarrow> 'g
     \<Rightarrow> error + (((variant \<times> 's) \<times> params) \<times> 'g)" where
  "mutate e a model ps g =
     (let name = fst model;
          new0 = AList.update ''random_state'' (PyInt (random_state a)) ps
      in case mutate_params e (exploration_std a) ps (get_hyperparameter_options name) new0 g of
           Inl err \<Rightarrow> Inl err
         | Inr (new1, g1) \<Rightarrow>
             let new_params = with_scaling a name new1
             in Inr (((name, construct e name new_params), new_params), g1))"

subsection \<open>Evolution\<close>

text \<open>One round of the mutation loop: the target slot receives a mutation of the source arm.\<close>

definition mutate_into ::
  "('g, 's, 'x) externals \<Rightarrow> 's AutoSAD \<Rightarrow> nat \<Rightarrow> nat \<Rightarrow> 'g \<Rightarrow> error + ('s AutoSAD \<times> 'g)" where
  "mutate_into e a src tgt g =
     (if src \<ge> length (models a) \<or> src \<ge> length (model_params a) then Inl IndexError
      else case mutate e a (models a ! src) (model_params a ! src) g of
             Inl err \<Rightarrow> Inl err
           | Inr ((new_m, new_p), g1) \<Rightarrow>
               if tgt \<ge> length (models a) \<or> tgt \<ge> length (model_params a)
                  \<or> tgt \<ge> length (scores a) \<or> tgt \<ge> length (bg_mean (bandit a))
                  \<or> tgt \<ge> length (bg_n (bandit a))
               then Inl IndexError
               else Inr (a\<lparr>models := (models a)[tgt := new_m],
                           model_params := (model_params a)[tgt := new_p],
                           scores := (scores a)[tgt := PostProcessor_init 1000],
                           bandit := (bandit a)\<lparr>bg_mean := (bg_mean (bandit a))[tgt := 0],
                                                bg_n := (bg_n (bandit a))[tgt := 0]\<rparr>\<rparr>, g1))"

fun mutate_pairs ::
  "('g, 's, 'x) externals \<Rightarrow> 's AutoSAD \<Rightarrow> (nat \<times> nat) list \<Rightarrow> 'g \<Rightarrow> error + ('s AutoSAD \<times> 'g)" where
  "mutate_pairs e a [] g = Inr (a, g)"
| "mutate_pairs e a ((src, tgt) # rest) g =
     (case mutate_into e a src tgt g of
        Inl err \<Rightarrow> Inl err
      | Inr (a1, g1) \<Rightarrow> mutate_pairs e a1 rest g1)"

text \<open>One round of the replacement loop of the diversity guard.\<close>

definition replace_random ::
  "('g, 's, 'x) externals \<Rightarrow> 's AutoSAD \<Rightarrow> nat \<Rightarrow> 'g \<Rightarrow> error + ('s AutoSAD \<times> 'g)" where
  "replace_random e a idx g =
     (case random_model_with_params e a g of
        Inl err \<Rightarrow> Inl err
      | Inr ((new_m, new_p), g1) \<Rightarrow>
          if idx \<ge> length (models a) \<or> idx \<ge> length (model_params a)
             \<or> idx \<ge> length (scores a) \<or> idx \<ge> length (bg_mean (bandit a))
             \<or> idx \<ge> length (bg_n (bandit a))
          then Inl IndexError
          else Inr (a\<lparr>models := (models a)[idx := new_m],
                      model_params := (model_params a)[idx := new_p],
                      scores := (scores a)[idx := PostProcessor_init 1000],
                      bandit := (bandit a)\<lparr>bg_mean := (bg_mean (bandit a))[idx := 0],
                                           bg_n := (bg_n (bandit a))[idx := 0]\<rparr>\<rparr>, g1))"

fun replace_all ::
  "('g, 's, 'x) externals \<Rightarrow> 's AutoSAD \<Rightarrow> nat list \<Rightarrow> 'g \<Rightarrow> error + ('s AutoSAD \<times> 'g)" where
  "replace_all e a [] g = Inr (a, g)"
| "replace_all e a (idx # rest) g =
     (case replace_random e a idx g of
        Inl err \<Rightarrow> Inl err
      | Inr (a1, g1) \<Rightarrow> replace_all e a1 rest g1)"

text \<open>\<^verbatim>\<open>Counter(types).items()\<close>: each variant once, in the order of first occurrence.\<close>

definition counter_items :: "'a list \<Rightarrow> ('a \<times> nat) list" where
  "counter_items xs = map (\<lambda>t. (t, count_list xs t)) (rev (remdups (rev xs)))"

text \<open>\<^verbatim>\<open>[i for i, tt in enumerate(types) if tt == t][1:]\<close>\<close>

definition idx_to_replace :: "variant list \<Rightarrow> variant \<Rightarrow> nat list" where
  "idx_to_replace types t = tl (filter (\<lambda>i. types ! i = t) [0..<length types])"

text \<open>
  The guard's loop over the variants. \<open>types\<close> is computed once, before the loop.
  \<^verbatim>\<open>cnt / self.n_models\<close> raises ZeroDivisionError when \<open>n_models\<close> is 0.
\<close>

fun diversity_guard ::
  "('g, 's, 'x) externals \<Rightarrow> variant list \<Rightarrow> (variant \<times> nat) list \<Rightarrow> 's AutoSAD \<Rightarrow> 'g
     \<Rightarrow> error + ('s AutoSAD \<times> 'g)" where
  "diversity_guard e types [] a g = Inr (a, g)"
| "diversity_guard e types ((t, cnt) # rest) a g =
     (if n_models a = 0 then Inl ZeroDivisionError
      else if real cnt / real_of_int (n_models a) > 7 / 10
      then (case replace_all e a (idx_to_replace types t) g of
              Inl err \<Rightarrow> Inl err
            | Inr (a1, g1) \<Rightarrow> diversity_guard e types rest a1 g1)
      else diversity_guard e types rest a g)"

text \<open>
  What the verbose output reads: the header evaluates the rewards, the trailer reads the
  best-ranked arm (\<^verbatim>\<open>ranking[0]\<close>) from the pool and from the rewards.
\<close>

definition verbose_header :: "'s AutoSAD \<Rightarrow> error + 's AutoSAD" where
  "verbose_header a =
     (if verbose a
      then (case calculate_rewards (reward_calculator a) of
              Inl err \<Rightarrow> Inl err
            | Inr _ \<Rightarrow> Inr (a\<lparr>evolve_headers := evolve_headers a @ [step a]\<rparr>))
      else Inr a)"

definition verbose_trailer :: "'s AutoSAD \<Rightarrow> nat list \<Rightarrow> error + unit" where
  "verbose_trailer a ranking =
     (if verbose a
      then (case ranking of
              [] \<Rightarrow> Inl IndexError
            | r0 # _ \<Rightarrow>
                if r0 \<ge> length (models a) \<or> r0 \<ge> length (model_params a) \<or> r0 \<ge> length (scores a)
                then Inl IndexError
                else (case calculate_rewards (reward_calculator a) of
                        Inl err \<Rightarrow> Inl err
                      | Inr rewards \<Rightarrow>
                          if length rewards > 0 \<and> r0 \<ge> length rewards then Inl IndexError
                          else Inr ()))
      else Inr ())"

definition evolve ::
  "('g, 's, 'x) externals \<Rightarrow> 's AutoSAD \<Rightarrow> 'g \<Rightarrow> error + ('s AutoSAD \<times> 'g)" where
  "evolve e a0 g =
     (case verbose_header a0 of
        Inl err \<Rightarrow> Inl err
      | Inr a \<Rightarrow>
         let avg = np_mean (map pp_mean (scores a));
             a1 = a\<lparr>exploration_std := np_clip (exploration_std a * 2 powr (- avg)) (1 / 10) 2,
                    bandit := (bandit a)\<lparr>bg_decay := max (1 / 100) (bg_decay (bandit a) * 2 powr (- avg))\<rparr>\<rparr>
         in case acq (norm_cdf e) (bandit a1) (acq_strategy a1) of
              Inl err \<Rightarrow> Inl err
            | Inr values \<Rightarrow>
               let ranking = np_argsort values;
                   n_top = n_models a1 div 2;
                   top_idx = slice_to n_top ranking;
                   bot_idx = slice_last n_top ranking
               in case mutate_pairs e a1 (zip top_idx bot_idx) g of
                    Inl err \<Rightarrow> Inl err
                  | Inr (a2, g1) \<Rightarrow>
                     let types = map fst (models a2)
                     in case diversity_guard e types (counter_items types) a2 g1 of
                          Inl err \<Rightarrow> Inl err
                        | Inr (a3, g2) \<Rightarrow>
                            (case verbose_trailer a3 ranking of
                               Inl err \<Rightarrow> Inl err
                             | Inr _ \<Rightarrow> Inr (a3, g2)))"

subsection \<open>The online step\<close>

text \<open>
  \<^verbatim>\<open>for i, model in enumerate(self.models)\<close>: each scorer is updated with the instance and
  its raw score is normalised by \<^verbatim>\<open>self.scores[i]\<close>.
\<close>

fun score_models ::
  "('g, 's, 'x) externals \<Rightarrow> (variant \<times> 's) list \<Rightarrow> PostProcessor list \<Rightarrow> 'x
     \<Rightarrow> error + (real list \<times> (variant \<times> 's) list \<times> PostProcessor list)" where
  "score_models e [] ps x = Inr ([], [], ps)"
| "score_models e (m # ms) [] x = Inl IndexError"
| "score_models e (m # ms) (p # ps) x =
     (let (raw_score, st) = scorer_fit_score_partial e (fst m) (snd m) x;
          (normalized_score, p1) = process p raw_score
      in case score_models e ms ps x of
           Inl err \<Rightarrow> Inl err
         | Inr (nzs, ms1, ps1) \<Rightarrow> Inr (normalized_score # nzs, (fst m, st) # ms1, p1 # ps1))"

text \<open>\<^verbatim>\<open>for i, reward in enumerate(rewards): self.bandit.update(i, 1.0 - reward)\<close>\<close>

fun update_all :: "BanditGate \<Rightarrow> nat \<Rightarrow> real list \<Rightarrow> error + BanditGate" where
  "update_all b i [] = Inr b"
| "update_all b i (reward # rest) =
     (case BanditGate_update b (int i) (1 - reward) of
        Inl err \<Rightarrow> Inl err
      | Inr b1 \<Rightarrow> update_all b1 (Suc i) rest)"

definition fit_score_partial ::
  "('g, 's, 'x) externals \<Rightarrow> 's AutoSAD \<Rightarrow> 'x \<Rightarrow> 'g \<Rightarrow> error + (real \<times> 's AutoSAD \<times> 'g)" where
  "fit_score_partial e a x g =
     (case score_models e (models a) (scores a) x of
        Inl err \<Rightarrow> Inl err
      | Inr (normalized, ms, ps) \<Rightarrow>
         (case update_scores (reward_calculator a) normalized of
            Inl err \<Rightarrow> Inl err
          | Inr rc \<Rightarrow>
             (case calculate_rewards rc of
                Inl err \<Rightarrow> Inl err
              | Inr rewards \<Rightarrow>
                 (case update_all (bandit a) 0 rewards of
                    Inl err \<Rightarrow> Inl err
                  | Inr b \<Rightarrow>
                     (case acq (norm_cdf e) b (acq_strategy a) of
                        Inl err \<Rightarrow> Inl err
                      | Inr values \<Rightarrow>
                         (case np_argmin values of
                            Inl err \<Rightarrow> Inl err
                          | Inr arm \<Rightarrow>
                             let a1 = a\<lparr>models := ms, scores := ps, reward_calculator := rc,
                                        bandit := b, step := step a + 1\<rparr>
                             in case (if step a1 mod 1000 = 0 then evolve e a1 g else Inr (a1, g)) of
                                  Inl err \<Rightarrow> Inl err
                                | Inr (a2, g1) \<Rightarrow>
                                    if arm \<ge> length normalized then Inl IndexError
                                    else Inr (normalized ! arm, a2, g1)))))))"

text \<open>A stream of instances fed to one orchestrator, with the returned scores collected.\<close>

fun run ::
  "('g, 's, 'x) externals \<Rightarrow> 's AutoSAD \<Rightarrow> 'x list \<Rightarrow> 'g \<Rightarrow> error + (real list \<times> 's AutoSAD \<times> 'g)" where
  "run e a [] g = Inr ([], a, g)"
| "run e a (x # xs) g =
     (case fit_score_partial e a x g of
        Inl err \<Rightarrow> Inl err
      | Inr (y, a1, g1) \<Rightarrow>
         (case run e a1 xs g1 of
            Inl err \<Rightarrow> Inl err
          | Inr (ys, a2, g2) \<Rightarrow> Inr (y # ys, a2, g2)))"

text \<open>
  Lines 446 to 468 of \<^verbatim>\<open>fit_score_partial\<close>: all of the online step that comes before the
  evolution trigger. It yields the normalised scores, the selected arm and the updated
  orchestrator, whose step counter has been incremented.
\<close>

definition score_phase ::
  "('g, 's, 'x) externals \<Rightarrow> 's AutoSAD \<Rightarrow> 'x \<Rightarrow> error + (real list \<times> nat \<times> 's AutoSAD)" where
  "score_phase e a x =
     (case score_models e (models a) (scores a) x of
        Inl err \<Rightarrow> Inl err
      | Inr (normalized, ms, ps) \<Rightarrow>
         (case update_scores (reward_calculator a) normalized of
            Inl err \<Rightarrow> Inl err
          | Inr rc \<Rightarrow>
             (case calculate_rewards rc of
                Inl err \<Rightarrow> Inl err
              | Inr rewards \<Rightarrow>
                 (case update_all (bandit a) 0 rewards of
                    Inl err \<Rightarrow> Inl err
                  | Inr b \<Rightarrow>
                     (case acq (norm_cdf e) b (acq_strategy a) of
                        Inl err \<Rightarrow> Inl err
                      | Inr values \<Rightarrow>
                         (case np_argmin values of
                            Inl err \<Rightarrow> Inl err
                          | Inr arm \<Rightarrow>
                             Inr (normalized, arm,
                                  a\<lparr>models := ms, scores := ps, reward_calculator := rc,
                                    bandit := b, step := step a + 1\<rparr>)))))))"

section \<open>Auxiliary notions for the proofs\<close>

text \<open>Two orchestrator states that differ at most in the contents of the pool slots.\<close>

definition same_frame :: "'s AutoSAD \<Rightarrow> 's AutoSAD \<Rightarrow> bool" where
  "same_frame a b \<longleftrightarrow>
     n_models b = n_models a \<and> random_state b = random_state a \<and> verbose b = verbose a
     \<and> acq_strategy b = acq_strategy a \<and> feature_mins b = feature_mins a
     \<and> feature_maxes b = feature_maxes a \<and> step b = step a
     \<and> exploration_std b = exploration_std a
     \<and> reward_calculator b = reward_calculator a \<and> evolve_headers b = evolve_headers a
     \<and> bg_t (bandit b) = bg_t (bandit a) \<and> bg_decay (bandit b) = bg_decay (bandit a)
     \<and> length (models b) = length (models a)
     \<and> length (model_params b) = length (model_params a)
     \<and> length (scores b) = length (scores a)
     \<and> length (bg_n (bandit b)) = length (bg_n (bandit a))
     \<and> length (bg_mean (bandit b)) = length (bg_mean (bandit a))"

text \<open>The reward calculator follows a pool of \<open>k\<close> arms (or has not seen any scores yet).\<close>

definition rc_tracks :: "nat \<Rightarrow> MedianCorrelationRewardCalculator \<Rightarrow> bool" where
  "rc_tracks k rc \<longleftrightarrow>
     model_scores rc = [] \<or> (rc_n_models rc = Some k \<and> length (model_scores rc) = k)"

text \<open>Among the \<open>k\<close> steps that follow step \<open>s\<close>, those that are multiples of 1000.\<close>

definition due_steps :: "int \<Rightarrow> nat \<Rightarrow> int list" where
  "due_steps s k = filter (\<lambda>j. j mod 1000 = 0) (map (\<lambda>i. s + int i) [1..<Suc k])"

text \<open>A sequence of calls of \<^verbatim>\<open>BanditGate.update\<close>, each with its arm and reward.\<close>

fun update_seq :: "BanditGate \<Rightarrow> (int \<times> real) list \<Rightarrow> error + BanditGate" where
  "update_seq b [] = Inr b"
| "update_seq b ((arm_idx, reward) # rest) =
     (case BanditGate_update b arm_idx reward of
        Inl err \<Rightarrow> Inl err
      | Inr b1 \<Rightarrow> update_seq b1 rest)"

text \<open>
  A configuration value that comes from a grid candidate: the numpy scalar that
  \<^verbatim>\<open>np.random.choice\<close> makes of it, or the candidate itself for a float. These are the
  values that pool initialisation and mutation store.
\<close>

fun drawn_from :: "pyval \<Rightarrow> pyval \<Rightarrow> bool" where
  "drawn_from (NpInt k) (PyInt j) = (k = j)"
| "drawn_from (NpFloat x) (PyFloat y) = (x = y)"
| "drawn_from (PyFloat x) (PyFloat y) = (x = y)"
| "drawn_from (PyStr s) (PyStr t) = (s = t)"
| "drawn_from _ _ = False"


text \<open>A grid of one kind of literal: all integers, all floats or all strings.\<close>

definition homogeneous :: "pyval list \<Rightarrow> bool" where
  "homogeneous vals =
     (list_all (\<lambda>c. case c of PyInt _ \<Rightarrow> True | _ \<Rightarrow> False) vals
      \<or> list_all (\<lambda>c. case c of PyFloat _ \<Rightarrow> True | _ \<Rightarrow> False) vals
      \<or> list_all (\<lambda>c. case c of PyStr _ \<Rightarrow> True | _ \<Rightarrow> False) vals)"


section \<open>Concrete collaborators for the examples\<close>

text \<open>
  A small format for the examples: the multiples of 1/4 up to 1024, rounding to nearest.
\<close>

definition toy_format :: float_format where
  "toy_format = \<lparr>rnd = (\<lambda>x. real_of_int \<lfloor>x * 4 + 1 / 2\<rfloor> / 4), fmax = 1024\<rparr>"

text \<open>
  A small instance of the external collaborators: the generator state is a counter that
  advances by \<open>stride\<close> at each draw, the truncated normal returns its centre, scorers
  have no state and score an instance (a real number) by the instance itself.
\<close>

definition toy_ext :: "nat \<Rightarrow> (nat, unit, real) externals" where
  "toy_ext stride =
     \<lparr>np_random_seed = (\<lambda>s. nat s),
      np_random_raw = (\<lambda>g. (g, g + stride)),
      truncnorm_rvs = (\<lambda>a b loc scale g. (Some loc, g + stride)),
      norm_cdf = (\<lambda>z. 1 / 2),
      construct = (\<lambda>v ps. ()),
      scorer_fit_score_partial = (\<lambda>v s x. (x, s))\<rparr>"

section \<open>Properties of the score normaliser\<close>

lemma fl_Fin: "- fmax F \<le> rnd F x \<Longrightarrow> rnd F x \<le> fmax F \<Longrightarrow> fl F x = Fin (rnd F x)"
  by (simp add: fl_def Let_def)

lemma rnd_nonneg: "ieee_like F \<Longrightarrow> 0 \<le> x \<Longrightarrow> 0 \<le> rnd F x"
  by (metis ieee_like_def monoD)

lemma span_in_range:
  assumes F: "ieee_like F" and ab: "a \<le> b"
    and sa: "rnd F (a * a) \<le> fmax F" and sb: "rnd F (b * b) \<le> fmax F"
  shows "rnd F (b - a) \<le> fmax F"
proof -
  from F have m: "mono (rnd F)" and top: "rnd F (fmax F) = fmax F" and four: "4 \<le> fmax F"
    by (simp_all add: ieee_like_def)
  define c where "c = max \<bar>a\<bar> \<bar>b\<bar>"
  have d: "b - a \<le> 2 * c" unfolding c_def by linarith
  have sq: "rnd F (c * c) \<le> fmax F"
  proof (cases "\<bar>a\<bar> \<le> \<bar>b\<bar>")
    case True
    then have "c * c = b * b" unfolding c_def by (simp add: max_def abs_mult_self_eq)
    with sb show ?thesis by simp
  next
    case False
    then have "c * c = a * a" unfolding c_def by (simp add: max_def abs_mult_self_eq)
    with sa show ?thesis by simp
  qed
  show ?thesis
  proof (cases "c \<le> 2")
    case True
    with d four have "b - a \<le> fmax F" by linarith
    from monoD[OF m this] top show ?thesis by simp
  next
    case False
    then have "2 * c \<le> c * c" by (simp add: mult_right_mono)
    with d have "b - a \<le> c * c" by linarith
    from monoD[OF m this] sq show ?thesis by linarith
  qed
qed


lemma float_process_finite:
  assumes F: "ieee_like F" and tr: "tracking F p"
  shows "(rnd F (s * s) > fmax F \<longrightarrow> float_process F p (Fin s) = Inl OverflowError)
     \<and> (rnd F (s * s) \<le> fmax F \<longrightarrow>
          (\<exists>v p'. float_process F p (Fin s) = Inr (Fin v, p') \<and> 0 \<le> v \<and> v \<le> 1
             \<and> tracking F p'
             \<and> (fp_max p' = fp_min p' \<longrightarrow> v = 0)
             \<and> (fp_min p' = Fin s \<longrightarrow> v = 0)))"
proof (intro conjI impI)
  assume "rnd F (s * s) > fmax F"
  then show "float_process F p (Fin s) = Inl OverflowError"
    by (simp add: float_process_def fl_def Let_def)
next
  assume ok: "rnd F (s * s) \<le> fmax F"
  from F have m: "mono (rnd F)" and z: "rnd F 0 = 0" and one: "rnd F 1 = 1"
    and four: "4 \<le> fmax F" by (simp_all add: ieee_like_def)
  have sq: "f_square F (Fin s) = Inr (Fin (rnd F (s * s)))"
    using ok rnd_nonneg[OF F, of "s * s"] four by (simp add: fl_def Let_def)
  have zero: "fl F 0 = Fin 0" using z four by (simp add: fl_def Let_def)
  let ?G = "\<exists>v p'. float_process F p (Fin s) = Inr (Fin v, p') \<and> 0 \<le> v \<and> v \<le> 1
             \<and> tracking F p'
             \<and> (fp_max p' = fp_min p' \<longrightarrow> v = 0)
             \<and> (fp_min p' = Fin s \<longrightarrow> v = 0)"
  from tr[unfolded tracking_def] show ?G
  proof (elim disjE exE conjE)
    assume i: "fp_min p = PosInf" "fp_max p = NegInf"
    then have "float_process F p (Fin s) = Inr (Fin 0, p\<lparr>fp_min := Fin s, fp_max := Fin s,
                          fp_count := fp_count p + 1,
                          fp_sum := f_add F (fp_sum p) (Fin s),
                          fp_sum_sq := f_add F (fp_sum_sq p) (Fin (rnd F (s * s))),
                          fp_normalized_scores :=
                            push_bounded (fp_max_history p) (fp_normalized_scores p) (Fin 0)\<rparr>)"
      using sq zero by (simp add: float_process_def Let_def)
    then show ?G using ok by (auto simp: tracking_def)
  next
    fix a b
    assume ab: "fp_min p = Fin a" "fp_max p = Fin b" "a \<le> b"
      and sa: "rnd F (a * a) \<le> fmax F" and sb: "rnd F (b * b) \<le> fmax F"
    define a' where "a' = (if s < a then s else a)"
    define b' where "b' = (if b < s then s else b)"
    have le: "a' \<le> s" "s \<le> b'" "a' \<le> b'" using ab(3) by (auto simp: a'_def b'_def)
    have sa': "rnd F (a' * a') \<le> fmax F" using sa ok by (simp add: a'_def)
    have sb': "rnd F (b' * b') \<le> fmax F" using sb ok by (simp add: b'_def)
    define c where "c = rnd F (b' - a')"
    define d where "d = rnd F (s - a')"
    have c0: "0 \<le> c" unfolding c_def using rnd_nonneg[OF F] le by simp
    have cmax: "c \<le> fmax F" unfolding c_def by (rule span_in_range[OF F le(3) sa' sb'])
    have d0: "0 \<le> d" unfolding d_def using rnd_nonneg[OF F] le by simp
    have dc: "d \<le> c" unfolding d_def c_def using monoD[OF m, of "s - a'" "b' - a'"] le by simp
    have span: "f_sub F (Fin b') (Fin a') = Fin c"
      using c0 cmax four by (simp add: fl_def Let_def c_def)
    have diff: "f_sub F (Fin s) (Fin a') = Fin d"
      using d0 dc cmax four by (simp add: fl_def Let_def d_def)
    define v where "v = (if c = 0 then 0 else rnd F (d / c))"
    have v01: "0 \<le> v \<and> v \<le> 1"
    proof (cases "c = 0")
      case True
      then show ?thesis by (simp add: v_def)
    next
      case False
      with c0 have "0 < c" by simp
      with d0 dc have "0 \<le> d / c" "d / c \<le> 1" by simp_all
      from rnd_nonneg[OF F this(1)] monoD[OF m this(2)] one False show ?thesis by (simp add: v_def)
    qed
    have quot: "(if Fin c = Fin 0 then Inr (Fin 0) else f_div F (Fin d) (Fin c)) = Inr (Fin v)"
    proof (cases "c = 0")
      case True
      then show ?thesis by (simp add: v_def)
    next
      case False
      with v01 have "0 \<le> rnd F (d / c)" "rnd F (d / c) \<le> 1" by (simp_all add: v_def)
      with four False show ?thesis by (simp add: v_def fl_def Let_def)
    qed
    define p' where "p' = p\<lparr>fp_min := Fin a', fp_max := Fin b',
                          fp_count := fp_count p + 1,
                          fp_sum := f_add F (fp_sum p) (Fin s),
                          fp_sum_sq := f_add F (fp_sum_sq p) (Fin (rnd F (s * s))),
                          fp_normalized_scores :=
                            push_bounded (fp_max_history p) (fp_normalized_scores p) (Fin v)\<rparr>"
    have mn: "(if f_less (Fin s) (fp_min p) then Fin s else fp_min p) = Fin a'"
      using ab by (simp add: a'_def)
    have mx: "(if f_less (fp_max p) (Fin s) then Fin s else fp_max p) = Fin b'"
      using ab by (simp add: b'_def)
    have res: "float_process F p (Fin s) = Inr (Fin v, p')"
      unfolding float_process_def Let_def mn mx
      by (simp only: sq span diff quot sum.case p'_def)
    have t': "tracking F p'" using le sa' sb' by (auto simp: tracking_def p'_def)
    have e1: "fp_max p' = fp_min p' \<longrightarrow> v = 0"
      using z by (auto simp: p'_def v_def c_def)
    have e2: "fp_min p' = Fin s \<longrightarrow> v = 0"
      using z by (auto simp: p'_def v_def d_def)
    from res v01 t' e1 e2 show ?G by blast
  qed
qed

lemma float_process_all_tracking:
  assumes F: "ieee_like F"
  shows "tracking F p \<Longrightarrow> float_process_all F p (map Fin xs) = Inr (ys, p') \<Longrightarrow> tracking F p'"
proof (induction xs arbitrary: p ys)
  case Nil
  then show ?case by simp
next
  case (Cons x xs)
  from Cons.prems(2) obtain y p1 ys' where
    s: "float_process F p (Fin x) = Inr (y, p1)" and r: "float_process_all F p1 (map Fin xs) = Inr (ys', p')"
    by (auto split: sum.splits)
  from float_process_finite[OF F Cons.prems(1), of x] s have "tracking F p1"
    by (cases "rnd F (x * x) \<le> fmax F") auto
  from Cons.IH[OF this r] show ?case .
qed

lemma tracking_init: "tracking F (FloatPostProcessor_init mh)"
  by (simp add: tracking_def FloatPostProcessor_init_def)


lemma toy_format_ieee_like: "ieee_like toy_format"
proof -
  have "mono (\<lambda>x::real. real_of_int \<lfloor>x * 4 + 1 / 2\<rfloor> / 4)"
    by (intro monoI divide_right_mono) (simp_all add: floor_mono)
  then show ?thesis by (simp add: ieee_like_def toy_format_def)
qed

lemma float_process_all_unit_interval:
  assumes F: "ieee_like F"
  shows "tracking F p \<Longrightarrow> float_process_all F p (map Fin xs) = Inr (ys, p')
     \<Longrightarrow> list_all (\<lambda>y. \<exists>v. y = Fin v \<and> 0 \<le> v \<and> v \<le> 1) ys"
proof (induction xs arbitrary: p ys)
  case Nil
  then show ?case by simp
next
  case (Cons x xs)
  from Cons.prems(2) obtain y p1 ys' where
    s: "float_process F p (Fin x) = Inr (y, p1)" and r: "float_process_all F p1 (map Fin xs) = Inr (ys', p')"
    and ys: "ys = y # ys'"
    by (auto split: sum.splits)
  from float_process_finite[OF F Cons.prems(1), of x] s
  have 1: "tracking F p1" and 2: "\<exists>v. y = Fin v \<and> 0 \<le> v \<and> v \<le> 1"
    by (cases "rnd F (x * x) \<le> fmax F"; auto)+
  from Cons.IH[OF 1 r] 2 ys show ?case by simp
qed

lemma two_one_in_every_format:
  assumes "ieee_like F"
  shows "\<exists>p. float_process_all F (FloatPostProcessor_init mh) [Fin 2, Fin 1] = Inr ([Fin 0, Fin 0], p)
       \<and> fp_max p = Fin 2 \<and> fp_min p = Fin 1"
proof -
  from assms have m: "mono (rnd F)" and z: "rnd F 0 = 0" and one: "rnd F 1 = 1"
    and top: "rnd F (fmax F) = fmax F" and four: "4 \<le> fmax F" by (simp_all add: ieee_like_def)
  have r4: "0 \<le> rnd F 4" "rnd F 4 \<le> fmax F"
    using monoD[OF m, of 0 4] monoD[OF m four] z top by simp_all
  show ?thesis
    using z one r4 four
    by (simp add: float_process_def FloatPostProcessor_init_def fl_def push_bounded_def Let_def)
qed

text \<open>
  C1, as the claim states it, fails: after the raw scores 2.0 and 1.0 the normaliser returns
  0 for the second score although the running maximum 2 differs from the running minimum 1
  (every operation on these scores is exact, in any format, see \<open>two_one_in_every_format\<close>).
\<close>

theorem C1_zero_only_without_spread_counterexample:
  "\<exists>p. float_process_all toy_format (FloatPostProcessor_init 1000) [Fin 2, Fin 1]
         = Inr ([Fin 0, Fin 0], p)
       \<and> fp_max p = Fin 2 \<and> fp_min p = Fin 1"
  by (simp add: float_process_def FloatPostProcessor_init_def toy_format_def fl_def
      push_bounded_def Let_def)

text \<open>
  C1, amended: on Python floats, for every sequence of finite raw scores fed to a fresh
  normaliser, every value returned is a finite number in \<open>[0, 1]\<close>; a further finite score
  either makes \<^verbatim>\<open>process\<close> raise OverflowError (exactly when its square leaves the float
  range) or yields a value in \<open>[0, 1]\<close>, which is 0 whenever the running maximum equals the
  running minimum after the update, and more generally whenever the score is the running
  minimum. Nothing is claimed for infinite or NaN scores (see
  \<open>float_process_infinite_score\<close>), and a zero need not mean that the score is the minimum
  (see \<open>float_process_underflow\<close>).
\<close>

theorem C1_process_normalised:
  assumes "ieee_like F"
    and "float_process_all F (FloatPostProcessor_init mh) (map Fin pre) = Inr (ys, p)"
  shows "list_all (\<lambda>y. \<exists>v. y = Fin v \<and> 0 \<le> v \<and> v \<le> 1) ys
     \<and> (rnd F (s * s) > fmax F \<longrightarrow> float_process F p (Fin s) = Inl OverflowError)
     \<and> (rnd F (s * s) \<le> fmax F \<longrightarrow>
          (\<exists>v p'. float_process F p (Fin s) = Inr (Fin v, p') \<and> 0 \<le> v \<and> v \<le> 1
             \<and> (fp_max p' = fp_min p' \<longrightarrow> v = 0)
             \<and> (fp_min p' = Fin s \<longrightarrow> v = 0)))"
proof -
  note t0 = tracking_init[of F mh]
  from float_process_all_tracking[OF assms(1) t0 assms(2)] have t: "tracking F p" .
  from float_process_finite[OF assms(1) t, of s] float_process_all_unit_interval[OF assms(1) t0 assms(2)]
  show ?thesis by blast
qed

text \<open>The amended C1 in the example format, after the scores 3, 1, 2.\<close>

theorem C1_process_normalised_witness:
  "\<exists>p p'. ieee_like toy_format
     \<and> float_process_all toy_format (FloatPostProcessor_init 1000) (map Fin [3, 1, 2])
          = Inr ([Fin 0, Fin 0, Fin (1 / 2)], p)
     \<and> float_process toy_format p (Fin 40) = Inl OverflowError
     \<and> float_process toy_format p (Fin 1) = Inr (Fin 0, p') \<and> fp_min p' = Fin 1"
proof -
  define r where "r = projr (float_process_all toy_format (FloatPostProcessor_init 1000) (map Fin [3, 1, 2]))"
  define q where "q = projr (float_process toy_format (snd r) (Fin 1))"
  have 1: "float_process_all toy_format (FloatPostProcessor_init 1000) (map Fin [3, 1, 2])
      = Inr ([Fin 0, Fin 0, Fin (1 / 2)], snd r)"
    unfolding r_def
    by (simp add: float_process_def FloatPostProcessor_init_def toy_format_def fl_def
        push_bounded_def Let_def)
  have 2: "rnd toy_format (40 * 40) > fmax toy_format" "rnd toy_format (1 * 1) \<le> fmax toy_format"
    by (simp_all add: toy_format_def)
  note c = C1_process_normalised[OF toy_format_ieee_like 1]
  from c[of 40] 2(1) have 3: "float_process toy_format (snd r) (Fin 40) = Inl OverflowError" by blast
  from c[of 1] 2(2) obtain v p' where
    4: "float_process toy_format (snd r) (Fin 1) = Inr (Fin v, p')" "fp_min p' = Fin 1 \<longrightarrow> v = 0"
    by blast
  have 5: "fp_min (snd q) = Fin 1"
    unfolding q_def r_def
    by (simp add: float_process_def FloatPostProcessor_init_def toy_format_def fl_def
        push_bounded_def Let_def)
  from 4(1) have "q = (Fin v, p')" unfolding q_def by simp
  with 4 5 have 6: "float_process toy_format (snd r) (Fin 1) = Inr (Fin 0, p')" "fp_min p' = Fin 1"
    by simp_all
  show ?thesis
    by (rule exI[of _ "snd r"], rule exI[of _ p']) (use toy_format_ieee_like 1 3 6 in simp)
qed

text \<open>
  Outside the amended claim: an infinite first score yields NaN, and in the example
  format the score 1/4 after 0 and 30 yields 0 by underflow without being the minimum.
\<close>

lemma float_process_infinite_score:
  "\<exists>p. float_process F (FloatPostProcessor_init mh) PosInf = Inr (NaN, p)"
  by (simp add: float_process_def FloatPostProcessor_init_def Let_def)

lemma float_process_underflow:
  "\<exists>p. float_process_all toy_format (FloatPostProcessor_init 1000) [Fin 0, Fin 30, Fin (1 / 4)]
         = Inr ([Fin 0, Fin 1, Fin 0], p)
       \<and> fp_min p = Fin 0"
  by (simp add: float_process_def FloatPostProcessor_init_def toy_format_def fl_def
      push_bounded_def Let_def)

text \<open>The exact reading used by the orchestrator stays in the unit interval as well.\<close>

lemma lower_min_le: "lower_min m x \<le> x"
  by (auto simp: lower_min_def split: option.splits)

lemma raise_max_ge: "x \<le> raise_max m x"
  by (auto simp: raise_max_def split: option.splits)

lemma process_unit_interval: "0 \<le> fst (process p x) \<and> fst (process p x) \<le> 1"
  using lower_min_le[of "pp_min p" x] raise_max_ge[of x "pp_max p"]
  by (auto simp: process_def Let_def divide_le_eq_1)

section \<open>What the operations leave unchanged\<close>

lemma same_frame_refl: "same_frame a a"
  by (simp add: same_frame_def)

lemma same_frame_trans: "same_frame a b \<Longrightarrow> same_frame b c \<Longrightarrow> same_frame a c"
  by (simp add: same_frame_def)

lemma mutate_into_frame:
  "mutate_into e a src tgt g = Inr (b, g1) \<Longrightarrow> same_frame a b"
  by (auto simp: mutate_into_def same_frame_def split: if_splits sum.splits prod.splits)

lemma mutate_pairs_frame:
  "mutate_pairs e a prs g = Inr (b, g1) \<Longrightarrow> same_frame a b"
proof (induction prs arbitrary: a g)
  case Nil
  then show ?case by (simp add: same_frame_refl)
next
  case (Cons pr prs)
  obtain src tgt where pr: "pr = (src, tgt)" by (cases pr)
  from Cons.prems pr obtain a1 g' where
    s1: "mutate_into e a src tgt g = Inr (a1, g')" and s2: "mutate_pairs e a1 prs g' = Inr (b, g1)"
    by (auto split: sum.splits)
  from mutate_into_frame[OF s1] Cons.IH[OF s2] show ?case by (rule same_frame_trans)
qed

lemma replace_random_frame:
  "replace_random e a idx g = Inr (b, g1) \<Longrightarrow> same_frame a b"
  by (auto simp: replace_random_def same_frame_def split: if_splits sum.splits prod.splits)

lemma replace_all_frame:
  "replace_all e a idxs g = Inr (b, g1) \<Longrightarrow> same_frame a b"
proof (induction idxs arbitrary: a g)
  case Nil
  then show ?case by (simp add: same_frame_refl)
next
  case (Cons i idxs)
  from Cons.prems obtain a1 g' where
    s1: "replace_random e a i g = Inr (a1, g')" and s2: "replace_all e a1 idxs g' = Inr (b, g1)"
    by (auto split: sum.splits)
  from replace_random_frame[OF s1] Cons.IH[OF s2] show ?case by (rule same_frame_trans)
qed

lemma diversity_guard_frame:
  "diversity_guard e types items a g = Inr (b, g1) \<Longrightarrow> same_frame a b"
proof (induction items arbitrary: a g)
  case Nil
  then show ?case by (simp add: same_frame_refl)
next
  case (Cons it items)
  obtain t cnt where it: "it = (t, cnt)" by (cases it)
  show ?case
  proof (cases "real cnt / real_of_int (n_models a) > 7 / 10")
    case True
    with Cons.prems it obtain a1 g' where
      s1: "replace_all e a (idx_to_replace types t) g = Inr (a1, g')"
      and s2: "diversity_guard e types items a1 g' = Inr (b, g1)"
      by (auto split: sum.splits if_splits)
    from replace_all_frame[OF s1] Cons.IH[OF s2] show ?thesis by (rule same_frame_trans)
  next
    case False
    with Cons.prems it have "diversity_guard e types items a g = Inr (b, g1)"
      by (auto split: if_splits)
    then show ?thesis by (rule Cons.IH)
  qed
qed

text \<open>What an evolution cycle leaves alone.\<close>

lemma evolve_shape:
  assumes "evolve e a g = Inr (b, g1)"
  shows "n_models b = n_models a \<and> step b = step a \<and> verbose b = verbose a
     \<and> acq_strategy b = acq_strategy a \<and> random_state b = random_state a
     \<and> reward_calculator b = reward_calculator a
     \<and> bg_t (bandit b) = bg_t (bandit a)
     \<and> length (models b) = length (models a)
     \<and> length (model_params b) = length (model_params a)
     \<and> length (scores b) = length (scores a)
     \<and> length (bg_n (bandit b)) = length (bg_n (bandit a))
     \<and> length (bg_mean (bandit b)) = length (bg_mean (bandit a))
     \<and> evolve_headers b = (if verbose a then evolve_headers a @ [step a] else evolve_headers a)"
proof -
  from assms obtain a0 where h: "verbose_header a = Inr a0"
    by (auto simp: evolve_def split: sum.splits)
  define avg where "avg = np_mean (map pp_mean (scores a0))"
  define a1 where "a1 = a0\<lparr>exploration_std := np_clip (exploration_std a0 * 2 powr (- avg)) (1 / 10) 2,
                    bandit := (bandit a0)\<lparr>bg_decay := max (1 / 100) (bg_decay (bandit a0) * 2 powr (- avg))\<rparr>\<rparr>"
  from assms h obtain vals a2 g' where
    m: "mutate_pairs e a1 (zip (slice_to (n_models a1 div 2) (np_argsort vals))
           (slice_last (n_models a1 div 2) (np_argsort vals))) g = Inr (a2, g')"
    and d: "diversity_guard e (map fst (models a2)) (counter_items (map fst (models a2))) a2 g' = Inr (b, g1)"
    by (auto simp: evolve_def Let_def avg_def a1_def split: sum.splits)
  have f: "same_frame a1 b"
    using mutate_pairs_frame[OF m] diversity_guard_frame[OF d] by (rule same_frame_trans)
  from h have h0: "a0 = (if verbose a then a\<lparr>evolve_headers := evolve_headers a @ [step a]\<rparr> else a)"
    by (auto simp: verbose_header_def split: if_splits sum.splits)
  show ?thesis using f h0 by (auto simp: same_frame_def a1_def)
qed

lemma score_models_shape:
  "score_models e ms ps x = Inr (nz, ms1, ps1) \<Longrightarrow>
     length nz = length ms \<and> length ms1 = length ms \<and> length ps1 = length ps
     \<and> map fst ms1 = map fst ms"
proof (induction ms arbitrary: ps nz ms1 ps1)
  case Nil
  then show ?case by simp
next
  case (Cons m ms)
  from Cons.prems obtain p ps' where ps: "ps = p # ps'" by (cases ps) auto
  from Cons.prems ps obtain nz' ms' ps1' where
    r: "score_models e ms ps' x = Inr (nz', ms', ps1')"
    by (auto simp: Let_def split: prod.splits sum.splits)
  from Cons.IH[OF r] Cons.prems ps r show ?case
    by (auto simp: Let_def split: prod.splits sum.splits)
qed

lemma BanditGate_update_shape:
  "BanditGate_update b i r = Inr b1 \<Longrightarrow>
     bg_t b1 = bg_t b + 1 \<and> bg_decay b1 = bg_decay b
     \<and> length (bg_n b1) = length (bg_n b) \<and> length (bg_mean b1) = length (bg_mean b)"
  by (auto simp: BanditGate_update_def split: option.splits)

lemma update_all_shape:
  "update_all b i rs = Inr b1 \<Longrightarrow>
     bg_t b1 = bg_t b + int (length rs) \<and> bg_decay b1 = bg_decay b
     \<and> length (bg_n b1) = length (bg_n b) \<and> length (bg_mean b1) = length (bg_mean b)"
proof (induction rs arbitrary: b i)
  case Nil
  then show ?case by simp
next
  case (Cons r rs)
  from Cons.prems obtain b' where
    u: "BanditGate_update b (int i) (1 - r) = Inr b'" and v: "update_all b' (Suc i) rs = Inr b1"
    by (auto split: sum.splits)
  from BanditGate_update_shape[OF u] Cons.IH[OF v] show ?case by simp
qed

lemma append_each_length: "append_each ms vs = Inr r \<Longrightarrow> length r = length ms"
  by (induction ms vs arbitrary: r rule: append_each.induct) (auto split: sum.splits)

lemma pop_each_length: "pop_each k ms = Inr r \<Longrightarrow> length r = length ms"
  by (induction k ms arbitrary: r rule: pop_each.induct) (auto split: sum.splits if_splits)

lemma update_scores_tracks:
  assumes "update_scores rc nz = Inr rc1"
    and "model_scores rc = [] \<or> (rc_n_models rc = Some (length nz) \<and> length (model_scores rc) = length nz)"
  shows "rc_n_models rc1 = Some (length nz) \<and> length (model_scores rc1) = length nz"
  using assms
  by (auto simp: update_scores_def Let_def split: sum.splits if_splits option.splits
      dest!: append_each_length pop_each_length)

lemma calculate_rewards_length:
  "calculate_rewards rc = Inr rs \<Longrightarrow> rc_n_models rc = Some k \<Longrightarrow> length rs = k"
  by (auto simp: calculate_rewards_def split: if_splits)

lemma fit_score_partial_shape:
  assumes "fit_score_partial e a x g = Inr (y, b, g1)"
  shows "n_models b = n_models a \<and> step b = step a + 1 \<and> verbose b = verbose a
     \<and> acq_strategy b = acq_strategy a \<and> random_state b = random_state a
     \<and> length (models b) = length (models a)
     \<and> length (model_params b) = length (model_params a)
     \<and> length (scores b) = length (scores a)
     \<and> length (bg_n (bandit b)) = length (bg_n (bandit a))
     \<and> length (bg_mean (bandit b)) = length (bg_mean (bandit a))
     \<and> evolve_headers b =
         (if verbose a \<and> (step a + 1) mod 1000 = 0 then evolve_headers a @ [step a + 1]
          else evolve_headers a)
     \<and> (rc_tracks (length (models a)) (reward_calculator a) \<longrightarrow>
          rc_tracks (length (models a)) (reward_calculator b)
          \<and> bg_t (bandit b) = bg_t (bandit a) + int (length (models a)))"
proof -
  from assms obtain nz ms ps rc rs bb vals arm where
    sm: "score_models e (models a) (scores a) x = Inr (nz, ms, ps)"
    and us: "update_scores (reward_calculator a) nz = Inr rc"
    and cr: "calculate_rewards rc = Inr rs"
    and ua: "update_all (bandit a) 0 rs = Inr bb"
    by (auto simp: fit_score_partial_def split: sum.splits prod.splits)
  define a1 where "a1 = a\<lparr>models := ms, scores := ps, reward_calculator := rc,
                                        bandit := bb, step := step a + 1\<rparr>"
  from assms sm us cr ua have
    ev: "(if step a1 mod 1000 = 0 then evolve e a1 g else Inr (a1, g)) = Inr (b, g1)"
    by (auto simp: fit_score_partial_def a1_def Let_def split: sum.splits prod.splits if_splits)
  note sh = score_models_shape[OF sm] update_all_shape[OF ua]
  have tr: "rc_tracks (length (models a)) (reward_calculator a) \<Longrightarrow>
      rc_n_models rc = Some (length (models a)) \<and> length (model_scores rc) = length (models a)"
    using update_scores_tracks[OF us] sh by (simp add: rc_tracks_def)
  have len: "rc_tracks (length (models a)) (reward_calculator a) \<Longrightarrow> length rs = length (models a)"
    using tr calculate_rewards_length[OF cr] by simp
  show ?thesis
  proof (cases "step a1 mod 1000 = 0")
    case True
    with ev have "evolve e a1 g = Inr (b, g1)" by simp
    from evolve_shape[OF this] True sh tr len show ?thesis
      by (auto simp: a1_def rc_tracks_def)
  next
    case False
    with ev have "b = a1" by simp
    with False sh tr len show ?thesis by (auto simp: a1_def rc_tracks_def)
  qed
qed

lemma run_shape:
  "run e a xs g = Inr (ys, b, g1) \<Longrightarrow>
     n_models b = n_models a \<and> step b = step a + int (length xs) \<and> verbose b = verbose a
     \<and> length ys = length xs
     \<and> length (models b) = length (models a)
     \<and> length (model_params b) = length (model_params a)
     \<and> length (scores b) = length (scores a)
     \<and> length (bg_n (bandit b)) = length (bg_n (bandit a))
     \<and> length (bg_mean (bandit b)) = length (bg_mean (bandit a))"
proof (induction xs arbitrary: a g ys)
  case Nil
  then show ?case by simp
next
  case (Cons x xs)
  from Cons.prems obtain y a1 g' ys' where
    f: "fit_score_partial e a x g = Inr (y, a1, g')" and r: "run e a1 xs g' = Inr (ys', b, g1)"
    and ys: "ys = y # ys'"
    by (auto split: sum.splits)
  from fit_score_partial_shape[OF f] Cons.IH[OF r] ys show ?case by simp
qed

lemma run_bandit_t:
  "run e a xs g = Inr (ys, b, g1) \<Longrightarrow> rc_tracks (length (models a)) (reward_calculator a) \<Longrightarrow>
     bg_t (bandit b) = bg_t (bandit a) + int (length (models a)) * int (length xs)"
proof (induction xs arbitrary: a g ys)
  case Nil
  then show ?case by simp
next
  case (Cons x xs)
  from Cons.prems obtain y a1 g' ys' where
    f: "fit_score_partial e a x g = Inr (y, a1, g')" and r: "run e a1 xs g' = Inr (ys', b, g1)"
    by (auto split: sum.splits)
  from fit_score_partial_shape[OF f] Cons.prems(2)
  have 1: "rc_tracks (length (models a1)) (reward_calculator a1)"
    and 2: "bg_t (bandit a1) = bg_t (bandit a) + int (length (models a))"
    and 3: "length (models a1) = length (models a)" by simp_all
  from Cons.IH[OF r 1] 2 3 show ?case by (simp add: algebra_simps)
qed

lemma due_steps_Suc:
  "due_steps s (Suc k) = (if (s + 1) mod 1000 = 0 then [s + 1] else []) @ due_steps (s + 1) k"
proof -
  have "[1..<Suc (Suc k)] = 1 # map Suc [1..<Suc k]"
    by (metis One_nat_def map_Suc_upt upt_conv_Cons zero_less_Suc Suc_less_eq)
  then show ?thesis by (simp add: due_steps_def o_def add.assoc)
qed

lemma run_headers:
  "run e a xs g = Inr (ys, b, g1) \<Longrightarrow> verbose a \<Longrightarrow>
     evolve_headers b = evolve_headers a @ due_steps (step a) (length xs)"
proof (induction xs arbitrary: a g ys)
  case Nil
  then show ?case by (simp add: due_steps_def)
next
  case (Cons x xs)
  from Cons.prems obtain y a1 g' ys' where
    f: "fit_score_partial e a x g = Inr (y, a1, g')" and r: "run e a1 xs g' = Inr (ys', b, g1)"
    by (auto split: sum.splits)
  from fit_score_partial_shape[OF f] Cons.prems(2)
  have v: "verbose a1" and s: "step a1 = step a + 1"
    and h: "evolve_headers a1 = evolve_headers a @ (if (step a + 1) mod 1000 = 0 then [step a + 1] else [])"
    by simp_all
  from Cons.IH[OF r v] s h show ?case by (simp add: due_steps_Suc)
qed

lemma init_pool_shape:
  "init_pool e k a g = Inr (b, g1) \<Longrightarrow>
     length (models b) = length (models a) + k
     \<and> length (model_params b) = length (model_params a) + k
     \<and> length (scores b) = length (scores a) + k
     \<and> n_models b = n_models a \<and> step b = step a \<and> verbose b = verbose a
     \<and> evolve_headers b = evolve_headers a \<and> reward_calculator b = reward_calculator a"
proof (induction k arbitrary: a g)
  case 0
  then show ?case by simp
next
  case (Suc k)
  from Suc.prems obtain m p g' where
    r: "init_pool e k (a\<lparr>models := models a @ [m], model_params := model_params a @ [p],
                            scores := scores a @ [PostProcessor_init 1000]\<rparr>) g' = Inr (b, g1)"
    by (auto split: sum.splits)
  from Suc.IH[OF r] show ?case by simp
qed

lemma AutoSAD_init_shape:
  assumes "AutoSAD_init e n rs vb strat fmins fmaxes = Inr (a, g)"
  shows "0 \<le> n \<and> n_models a = n \<and> step a = 0 \<and> verbose a = vb \<and> evolve_headers a = []
     \<and> length (models a) = nat n \<and> length (model_params a) = nat n \<and> length (scores a) = nat n
     \<and> bandit a = \<lparr>bg_n = replicate (nat n) 0, bg_mean = replicate (nat n) 0, bg_t = 0, bg_decay = 2 / 10\<rparr>
     \<and> reward_calculator a = MedianCorrelationRewardCalculator_init 1000"
proof -
  from assms have n: "0 \<le> n"
    by (auto simp: AutoSAD_init_def BanditGate_init_def Let_def split: if_splits sum.splits)
  from assms obtain a1 where
    ip: "init_pool e (nat n) \<lparr>n_models = n, random_state = rs, verbose = vb, acq_strategy = strat,
                  feature_mins = fmins, feature_maxes = fmaxes,
                  models = [], model_params = [], scores = [], step = 0,
                  exploration_std = 1,
                  bandit = \<lparr>bg_n = [], bg_mean = [], bg_t = 0, bg_decay = 2 / 10\<rparr>,
                  reward_calculator = MedianCorrelationRewardCalculator_init 1000,
                  evolve_headers = []\<rparr> (np_random_seed e rs) = Inr (a1, g)"
    and a: "a = a1\<lparr>bandit := \<lparr>bg_n = replicate (nat n) 0, bg_mean = replicate (nat n) 0, bg_t = 0, bg_decay = 2 / 10\<rparr>\<rparr>"
    by (auto simp: AutoSAD_init_def BanditGate_init_def Let_def split: if_splits sum.splits)
  from init_pool_shape[OF ip] n a show ?thesis by simp
qed

section \<open>The sampler and mutation\<close>






lemma drawn_from_np_scalar:
  "drawn_from (np_scalar (PyInt k)) (PyInt k)" "drawn_from (np_scalar (PyFloat x)) (PyFloat x)"
  "drawn_from (np_scalar (PyStr s)) (PyStr s)"
  by (simp_all add: np_scalar_def)




lemma grid_distinct: "distinct (map fst (get_hyperparameter_options cls))"
  by (cases cls) simp_all

lemma map_of_with_scaling:
  "p \<notin> set scaling_names \<Longrightarrow> map_of (with_scaling a cls ps) p = map_of ps p"
  by (auto simp: with_scaling_def scaling_names_def update_conv')


lemma grid_all:
  "list_all (\<lambda>(p, vals). p \<noteq> ''random_state'' \<and> p \<notin> set scaling_names \<and> homogeneous vals \<and> vals \<noteq> [])
     (get_hyperparameter_options cls)"
  by (cases cls) (simp_all add: scaling_names_def homogeneous_def ints_def floats_def strs_def)

lemma grid_keys:
  "(p, vals) \<in> set (get_hyperparameter_options cls) \<Longrightarrow>
     p \<noteq> ''random_state'' \<and> p \<notin> set scaling_names \<and> homogeneous vals \<and> vals \<noteq> []"
  using grid_all[of cls] unfolding list_all_iff by blast


lemma mutate_params_other:
  "mutate_params e sigma ps opts new g = Inr (new', g') \<Longrightarrow> q \<notin> fst ` set opts \<Longrightarrow>
     map_of new' q = map_of new q"
proof (induction opts arbitrary: new g)
  case Nil
  then show ?case by simp
next
  case (Cons pv opts)
  obtain p vals where pv: "pv = (p, vals)" by (cases pv)
  from Cons.prems(2) pv have q: "q \<noteq> p" "q \<notin> fst ` set opts" by auto
  from Cons.prems(1) pv consider
    (skip) "mutate_params e sigma ps opts new g = Inr (new', g')"
    | (upd) v g1 where "mutate_params e sigma ps opts (AList.update p v new) g1 = Inr (new', g')"
    by (auto split: option.splits if_splits sum.splits)
  then show ?case
  proof cases
    case skip
    from Cons.IH[OF this q(2)] show ?thesis .
  next
    case upd
    from Cons.IH[OF this q(2)] q(1) show ?thesis by (simp add: update_conv')
  qed
qed

lemma mutate_params_absent:
  "mutate_params e sigma ps opts new g = Inr (new', g') \<Longrightarrow>
   map_of ps q = None \<or> q \<in> set scaling_names \<Longrightarrow> map_of new' q = map_of new q"
proof (induction opts arbitrary: new g)
  case Nil
  then show ?case by simp
next
  case (Cons pv opts)
  obtain p vals where pv: "pv = (p, vals)" by (cases pv)
  from Cons.prems(1) pv consider
    (skip) "mutate_params e sigma ps opts new g = Inr (new', g')"
    | (upd) v g1 where "map_of ps p \<noteq> None" "p \<notin> set scaling_names"
        "mutate_params e sigma ps opts (AList.update p v new) g1 = Inr (new', g')"
    by (auto split: option.splits if_splits sum.splits)
  then show ?case
  proof cases
    case skip
    from Cons.IH[OF this Cons.prems(2)] show ?thesis .
  next
    case upd
    from upd(1,2) Cons.prems(2) have "q \<noteq> p" by auto
    with Cons.IH[OF upd(3) Cons.prems(2)] show ?thesis by (simp add: update_conv')
  qed
qed

lemma mutate_params_present:
  "mutate_params e sigma ps opts new g = Inr (new', g') \<Longrightarrow> distinct (map fst opts) \<Longrightarrow>
   (p, vals) \<in> set opts \<Longrightarrow> map_of ps p = Some cur \<Longrightarrow> p \<notin> set scaling_names \<Longrightarrow>
     \<exists>g1 g2 v. pwhs e cur vals sigma g1 = Inr (v, g2) \<and> map_of new' p = Some v"
proof (induction opts arbitrary: new g)
  case Nil
  then show ?case by simp
next
  case (Cons pv opts)
  obtain p0 vals0 where pv: "pv = (p0, vals0)" by (cases pv)
  from Cons.prems(2) pv have d: "distinct (map fst opts)" and pn: "p0 \<notin> fst ` set opts" by auto
  show ?case
  proof (cases "(p, vals) = (p0, vals0)")
    case True
    with Cons.prems(1,4,5) pv obtain v g1 where
      s: "pwhs e cur vals sigma g = Inr (v, g1)"
      and r: "mutate_params e sigma ps opts (AList.update p v new) g1 = Inr (new', g')"
      by (auto split: sum.splits)
    from True pn have "p \<notin> fst ` set opts" by simp
    from mutate_params_other[OF r this] have "map_of new' p = Some v" by (simp add: update_conv')
    with s show ?thesis by blast
  next
    case False
    with Cons.prems(3) pv have m: "(p, vals) \<in> set opts" by auto
    from Cons.prems(1) pv consider
      (skip) "mutate_params e sigma ps opts new g = Inr (new', g')"
      | (upd) v g1 where "mutate_params e sigma ps opts (AList.update p0 v new) g1 = Inr (new', g')"
      by (auto split: option.splits if_splits sum.splits)
    then show ?thesis
    proof cases
      case skip
      from Cons.IH[OF this d m Cons.prems(4,5)] show ?thesis .
    next
      case upd
      from Cons.IH[OF this d m Cons.prems(4,5)] show ?thesis .
    qed
  qed
qed

lemma mutate_params_fails:
  "mutate_params e sigma ps opts new g = Inl err \<Longrightarrow>
     \<exists>(p, vals) \<in> set opts. \<exists>cur g1. map_of ps p = Some cur \<and> pwhs e cur vals sigma g1 = Inl err"
proof (induction opts arbitrary: new g)
  case Nil
  then show ?case by simp
next
  case (Cons pv opts)
  obtain p vals where pv: "pv = (p, vals)" by (cases pv)
  from Cons.prems pv consider
    (skip) "mutate_params e sigma ps opts new g = Inl err"
    | (here) cur where "map_of ps p = Some cur" "pwhs e cur vals sigma g = Inl err"
    | (upd) v g1 where "mutate_params e sigma ps opts (AList.update p v new) g1 = Inl err"
    by (auto split: option.splits if_splits sum.splits)
  then show ?case
  proof cases
    case skip
    from Cons.IH[OF this] show ?thesis by auto
  next
    case here
    with pv show ?thesis by auto
  next
    case upd
    from Cons.IH[OF this] show ?thesis by auto
  qed
qed

lemma mutate_Inr:
  assumes "mutate e a model ps g = Inr ((m', ps'), g')"
  shows "\<exists>new1. mutate_params e (exploration_std a) ps (get_hyperparameter_options (fst model))
            (AList.update ''random_state'' (PyInt (random_state a)) ps) g = Inr (new1, g')
          \<and> ps' = with_scaling a (fst model) new1
          \<and> m' = (fst model, construct e (fst model) ps')"
  using assms by (auto simp: mutate_def Let_def split: sum.splits)

lemma mutate_grid_param:
  assumes m: "mutate e a model ps g = Inr ((m', ps'), g')"
    and pv: "(p, vals) \<in> set (get_hyperparameter_options (fst model))"
  shows "(map_of ps p = None \<longrightarrow> map_of ps' p = None)
     \<and> (\<forall>cur. map_of ps p = Some cur \<longrightarrow>
           (\<exists>g1 g2 v. pwhs e cur vals (exploration_std a) g1 = Inr (v, g2) \<and> map_of ps' p = Some v))"
proof -
  from mutate_Inr[OF m] obtain new1 where
    mp: "mutate_params e (exploration_std a) ps (get_hyperparameter_options (fst model))
            (AList.update ''random_state'' (PyInt (random_state a)) ps) g = Inr (new1, g')"
    and ps': "ps' = with_scaling a (fst model) new1" by blast
  from grid_keys[OF pv] have k: "p \<noteq> ''random_state''" "p \<notin> set scaling_names" by simp_all
  have eq: "map_of ps' p = map_of new1 p" using ps' k(2) by (simp add: map_of_with_scaling)
  show ?thesis
  proof (intro conjI impI allI)
    assume "map_of ps p = None"
    with mutate_params_absent[OF mp, of p] k(1) eq show "map_of ps' p = None"
      by (simp add: update_conv')
  next
    fix cur assume "map_of ps p = Some cur"
    from mutate_params_present[OF mp grid_distinct pv this k(2)] eq
    show "\<exists>g1 g2 v. pwhs e cur vals (exploration_std a) g1 = Inr (v, g2) \<and> map_of ps' p = Some v"
      by simp
  qed
qed

lemma mutate_other_params:
  assumes m: "mutate e a model ps g = Inr ((m', ps'), g')"
  shows "map_of ps' ''random_state'' = Some (PyInt (random_state a))
     \<and> (fst model = HalfSpaceTrees \<longrightarrow>
          map_of ps' ''feature_mins'' = Some (feature_mins a)
          \<and> map_of ps' ''feature_maxes'' = Some (feature_maxes a))
     \<and> (fst model \<noteq> HalfSpaceTrees \<longrightarrow>
          map_of ps' ''feature_mins'' = map_of ps ''feature_mins''
          \<and> map_of ps' ''feature_maxes'' = map_of ps ''feature_maxes'')"
proof -
  from mutate_Inr[OF m] obtain new1 where
    mp: "mutate_params e (exploration_std a) ps (get_hyperparameter_options (fst model))
            (AList.update ''random_state'' (PyInt (random_state a)) ps) g = Inr (new1, g')"
    and ps': "ps' = with_scaling a (fst model) new1" by blast
  have "''random_state'' \<notin> fst ` set (get_hyperparameter_options (fst model))"
    using grid_keys[of "''random_state''" _ "fst model"] by auto
  from mutate_params_other[OF mp this]
  have rs: "map_of new1 ''random_state'' = Some (PyInt (random_state a))" by (simp add: update_conv')
  have sc: "map_of new1 q = map_of ps q" if "q \<in> set scaling_names" for q
    using mutate_params_absent[OF mp, of q] that by (auto simp: update_conv' scaling_names_def)
  show ?thesis using rs sc ps'
    by (auto simp: with_scaling_def update_conv' scaling_names_def)
qed

lemma mutate_Inl:
  assumes "mutate e a model ps g = Inl err"
  shows "\<exists>(p, vals) \<in> set (get_hyperparameter_options (fst model)).
           \<exists>cur g1. map_of ps p = Some cur \<and> pwhs e cur vals (exploration_std a) g1 = Inl err"
proof -
  from assms have "mutate_params e (exploration_std a) ps (get_hyperparameter_options (fst model))
            (AList.update ''random_state'' (PyInt (random_state a)) ps) g = Inl err"
    by (auto simp: mutate_def Let_def split: sum.splits)
  from mutate_params_fails[OF this] show ?thesis .
qed

section \<open>Evaluating the model on concrete inputs\<close>

text \<open>The defining equations that the simplifier unfolds to run the model.\<close>

lemma init_pool_numeral:
  "init_pool e (numeral v) a g = init_pool e (Suc (pred_numeral v)) a g"
  by (simp add: numeral_eq_Suc)

lemma replicate_numeral_unfold:
  "replicate (numeral v) x = x # replicate (pred_numeral v) x"
  by (simp add: numeral_eq_Suc)

lemmas ev = toy_ext_def AutoSAD_init_def random_model_with_params_def choice_def with_scaling_def
  BanditGate_init_def MedianCorrelationRewardCalculator_init_def PostProcessor_init_def
  ints_def floats_def strs_def np_scalar_def scaling_names_def Let_def
  fit_score_partial_def process_def lower_min_def raise_max_def push_bounded_def
  update_scores_def calculate_rewards_def np_median_def BanditGate_update_def np_index_def
  acq_def upper_char_def ucb_def conf_def np_argmin_def init_pool_numeral replicate_numeral_unfold
lemmas ev2 = evolve_def verbose_header_def verbose_trailer_def np_argsort_def slice_to_def
  slice_last_def counter_items_def idx_to_replace_def np_mean_def pp_mean_def np_clip_def
lemmas ev3 = mutate_into_def mutate_def pwhs_def pwhs_categorical_def pwhs_numeric_def
  weighted_choice_def py_eq_def num_of_def is_int_or_float_def is_int_def replace_random_def
  np_std_def nearest_def py_round_def

section \<open>The bandit's counters\<close>

lemma BanditGate_update_other:
  assumes "BanditGate_update b j r = Inr b1"
    and "np_index (length (bg_n b)) j \<noteq> Some i"
    and "length (bg_mean b) = length (bg_n b)"
  shows "bg_n b1 ! i = bg_n b ! i \<and> bg_mean b1 ! i = bg_mean b ! i"
  using assms by (auto simp: BanditGate_update_def split: option.splits)

lemma update_seq_other:
  "update_seq b ops = Inr b1 \<Longrightarrow> length (bg_mean b) = length (bg_n b) \<Longrightarrow>
   \<forall>(j, r) \<in> set ops. np_index (length (bg_n b)) j \<noteq> Some i \<Longrightarrow>
     bg_n b1 ! i = bg_n b ! i \<and> bg_mean b1 ! i = bg_mean b ! i
     \<and> bg_t b1 = bg_t b + int (length ops)"
proof (induction ops arbitrary: b)
  case Nil
  then show ?case by simp
next
  case (Cons op ops)
  obtain j r where op: "op = (j, r)" by (cases op)
  from Cons.prems(1) op obtain b' where
    u: "BanditGate_update b j r = Inr b'" and s: "update_seq b' ops = Inr b1"
    by (auto split: sum.splits)
  note sh = BanditGate_update_shape[OF u]
  from Cons.prems(3) op have nj: "np_index (length (bg_n b)) j \<noteq> Some i" by simp
  from Cons.prems(3) sh
  have rest: "\<forall>(j, r) \<in> set ops. np_index (length (bg_n b')) j \<noteq> Some i" by simp
  from sh Cons.prems(2) have len: "length (bg_mean b') = length (bg_n b')" by simp
  from Cons.IH[OF s len rest] BanditGate_update_other[OF u nj Cons.prems(2)] sh
  show ?case by simp
qed

lemma mutate_into_resets:
  "mutate_into e a src tgt g = Inr (b, g1) \<Longrightarrow>
     bg_n (bandit b) ! tgt = 0 \<and> bg_mean (bandit b) ! tgt = 0
     \<and> scores b ! tgt = PostProcessor_init 1000"
  by (auto simp: mutate_into_def split: if_splits sum.splits prod.splits)

lemma replace_random_resets:
  "replace_random e a idx g = Inr (b, g1) \<Longrightarrow>
     bg_n (bandit b) ! idx = 0 \<and> bg_mean (bandit b) ! idx = 0
     \<and> scores b ! idx = PostProcessor_init 1000"
  by (auto simp: replace_random_def split: if_splits sum.splits prod.splits)

text \<open>
  C2, as the claim states it, fails: with a pool of two arms the first processed instance
  raises the bandit's step counter \<open>t\<close> from 0 to 2, not by 1.
\<close>

theorem C2_step_counter_counterexample:
  "\<exists>a0 g0 y a g. AutoSAD_init (toy_ext 1) 2 0 False ''UCB'' PyNone PyNone = Inr (a0, g0)
     \<and> bg_t (bandit a0) = 0
     \<and> fit_score_partial (toy_ext 1) a0 3 g0 = Inr (y, a, g)
     \<and> bg_t (bandit a) = 2"
  by (simp add: ev)

text \<open>
  C2, amended: one processed instance calls \<^verbatim>\<open>BanditGate.update\<close> once per arm, so after
  \<open>k\<close> instances the counter \<open>t\<close> of an orchestrator with \<open>n\<close> arms is \<open>n * k\<close> (each single
  call of \<^verbatim>\<open>update\<close> adds exactly 1). An arm that no call of \<^verbatim>\<open>update\<close> names since the
  creation of the bandit, or since the slot was reset by a mutation or by the diversity
  guard, has pull count 0 and mean reward 0.
\<close>

theorem C2_bandit_counters:
  "(AutoSAD_init e n rs vb strat fmins fmaxes = Inr (a0, g0) \<and> run e a0 xs g0 = Inr (ys, a, g)
      \<longrightarrow> bg_t (bandit a) = n * int (length xs))
   \<and> (BanditGate_init k d = Inr b0 \<and> update_seq b0 ops = Inr b \<and> i < nat k
        \<and> (\<forall>(j, r) \<in> set ops. np_index (nat k) j \<noteq> Some i)
      \<longrightarrow> bg_n b ! i = 0 \<and> bg_mean b ! i = 0 \<and> bg_t b = int (length ops))
   \<and> (mutate_into e a1 src tgt g2 = Inr (a2, g3) \<and> update_seq (bandit a2) ops' = Inr b'
        \<and> length (bg_mean (bandit a2)) = length (bg_n (bandit a2))
        \<and> (\<forall>(j, r) \<in> set ops'. np_index (length (bg_n (bandit a2))) j \<noteq> Some tgt)
      \<longrightarrow> bg_n b' ! tgt = 0 \<and> bg_mean b' ! tgt = 0)
   \<and> (replace_random e a3 idx g4 = Inr (a4, g5) \<and> update_seq (bandit a4) ops'' = Inr b''
        \<and> length (bg_mean (bandit a4)) = length (bg_n (bandit a4))
        \<and> (\<forall>(j, r) \<in> set ops''. np_index (length (bg_n (bandit a4))) j \<noteq> Some idx)
      \<longrightarrow> bg_n b'' ! idx = 0 \<and> bg_mean b'' ! idx = 0)"
proof (intro conjI impI)
  assume h: "AutoSAD_init e n rs vb strat fmins fmaxes = Inr (a0, g0) \<and> run e a0 xs g0 = Inr (ys, a, g)"
  note sh = AutoSAD_init_shape[OF h[THEN conjunct1]]
  have "rc_tracks (length (models a0)) (reward_calculator a0)"
    using sh by (simp add: rc_tracks_def MedianCorrelationRewardCalculator_init_def)
  from run_bandit_t[OF h[THEN conjunct2] this] sh
  show "bg_t (bandit a) = n * int (length xs)" by simp
next
  assume h: "BanditGate_init k d = Inr b0 \<and> update_seq b0 ops = Inr b \<and> i < nat k
        \<and> (\<forall>(j, r) \<in> set ops. np_index (nat k) j \<noteq> Some i)"
  then have b0: "b0 = \<lparr>bg_n = replicate (nat k) 0, bg_mean = replicate (nat k) 0, bg_t = 0, bg_decay = d\<rparr>"
    by (auto simp: BanditGate_init_def split: if_splits)
  from h b0 have 1: "update_seq b0 ops = Inr b" and 2: "length (bg_mean b0) = length (bg_n b0)"
    and 3: "\<forall>(j, r) \<in> set ops. np_index (length (bg_n b0)) j \<noteq> Some i" by simp_all
  from update_seq_other[OF 1 2 3] h b0
  show "bg_n b ! i = 0" "bg_mean b ! i = 0" "bg_t b = int (length ops)" by simp_all
next
  assume h: "mutate_into e a1 src tgt g2 = Inr (a2, g3) \<and> update_seq (bandit a2) ops' = Inr b'
        \<and> length (bg_mean (bandit a2)) = length (bg_n (bandit a2))
        \<and> (\<forall>(j, r) \<in> set ops'. np_index (length (bg_n (bandit a2))) j \<noteq> Some tgt)"
  then have 1: "update_seq (bandit a2) ops' = Inr b'"
    and 2: "length (bg_mean (bandit a2)) = length (bg_n (bandit a2))"
    and 3: "\<forall>(j, r) \<in> set ops'. np_index (length (bg_n (bandit a2))) j \<noteq> Some tgt"
    and 4: "mutate_into e a1 src tgt g2 = Inr (a2, g3)" by simp_all
  from update_seq_other[OF 1 2 3] mutate_into_resets[OF 4]
  show "bg_n b' ! tgt = 0" "bg_mean b' ! tgt = 0" by simp_all
next
  assume h: "replace_random e a3 idx g4 = Inr (a4, g5) \<and> update_seq (bandit a4) ops'' = Inr b''
        \<and> length (bg_mean (bandit a4)) = length (bg_n (bandit a4))
        \<and> (\<forall>(j, r) \<in> set ops''. np_index (length (bg_n (bandit a4))) j \<noteq> Some idx)"
  then have 1: "update_seq (bandit a4) ops'' = Inr b''"
    and 2: "length (bg_mean (bandit a4)) = length (bg_n (bandit a4))"
    and 3: "\<forall>(j, r) \<in> set ops''. np_index (length (bg_n (bandit a4))) j \<noteq> Some idx"
    and 4: "replace_random e a3 idx g4 = Inr (a4, g5)" by simp_all
  from update_seq_other[OF 1 2 3] replace_random_resets[OF 4]
  show "bg_n b'' ! idx = 0" "bg_mean b'' ! idx = 0" by simp_all
qed


text \<open>The amended C2 at concrete inputs.\<close>

theorem C2_bandit_counters_witness:
  "\<exists>a0 g0 ys a g b0 b a2 g3 b' a4 g5 b''.
     AutoSAD_init (toy_ext 1) 2 0 False ''UCB'' PyNone PyNone = Inr (a0, g0)
     \<and> run (toy_ext 1) a0 [3] g0 = Inr (ys, a, g) \<and> bg_t (bandit a) = 2
     \<and> BanditGate_init 3 (1 / 5) = Inr b0
     \<and> update_seq b0 [(0, 1), (2, 1 / 2), (0, 0)] = Inr b
     \<and> bg_n b ! 1 = 0 \<and> bg_mean b ! 1 = 0 \<and> bg_t b = 3
     \<and> mutate_into (toy_ext 1) a0 0 1 g0 = Inr (a2, g3)
     \<and> update_seq (bandit a2) [(0, 1)] = Inr b' \<and> bg_n b' ! 1 = 0 \<and> bg_mean b' ! 1 = 0
     \<and> replace_random (toy_ext 1) a0 1 g0 = Inr (a4, g5)
     \<and> update_seq (bandit a4) [(0, 1)] = Inr b'' \<and> bg_n b'' ! 1 = 0 \<and> bg_mean b'' ! 1 = 0"
proof -
  define i where "i = projr (AutoSAD_init (toy_ext 1) 2 0 False ''UCB'' PyNone PyNone)"
  define r where "r = projr (run (toy_ext 1) (fst i) [3] (snd i))"
  define b0 where "b0 = projr (BanditGate_init 3 (1 / 5))"
  define b where "b = projr (update_seq b0 [(0, 1), (2, 1 / 2), (0, 0)])"
  define m where "m = projr (mutate_into (toy_ext 1) (fst i) 0 1 (snd i))"
  define b' where "b' = projr (update_seq (bandit (fst m)) [(0, 1)])"
  define q where "q = projr (replace_random (toy_ext 1) (fst i) 1 (snd i))"
  define b'' where "b'' = projr (update_seq (bandit (fst q)) [(0, 1)])"
  have 1: "AutoSAD_init (toy_ext 1) 2 0 False ''UCB'' PyNone PyNone = Inr (fst i, snd i)"
    unfolding i_def by (simp add: ev)
  have 2: "run (toy_ext 1) (fst i) [3] (snd i) = Inr (fst r, fst (snd r), snd (snd r))"
    unfolding r_def i_def by (simp add: ev)
  have 3: "BanditGate_init 3 (1 / 5) = Inr b0"
    unfolding b0_def by (simp add: ev)
  have 4: "update_seq b0 [(0, 1), (2, 1 / 2), (0, 0)] = Inr b"
    unfolding b_def b0_def by (simp add: ev)
  have 5: "(1::nat) < nat 3 \<and> (\<forall>(j, r) \<in> set [(0, 1), (2, 1 / 2), (0, 0::real)]. np_index (nat 3) j \<noteq> Some 1)"
    by (simp add: ev)
  have 6: "mutate_into (toy_ext 1) (fst i) 0 1 (snd i) = Inr (fst m, snd m)"
    unfolding m_def i_def by (simp add: ev ev3)
  have 7: "update_seq (bandit (fst m)) [(0, 1)] = Inr b'
     \<and> length (bg_mean (bandit (fst m))) = length (bg_n (bandit (fst m)))
     \<and> (\<forall>(j, r) \<in> set [(0, 1::real)]. np_index (length (bg_n (bandit (fst m)))) j \<noteq> Some 1)"
    unfolding b'_def m_def i_def by (simp add: ev ev3)
  have 8: "replace_random (toy_ext 1) (fst i) 1 (snd i) = Inr (fst q, snd q)"
    unfolding q_def i_def by (simp add: ev ev3)
  have 9: "update_seq (bandit (fst q)) [(0, 1)] = Inr b''
     \<and> length (bg_mean (bandit (fst q))) = length (bg_n (bandit (fst q)))
     \<and> (\<forall>(j, r) \<in> set [(0, 1::real)]. np_index (length (bg_n (bandit (fst q)))) j \<noteq> Some 1)"
    unfolding b''_def q_def i_def by (simp add: ev ev3)
  note c = C2_bandit_counters[of "toy_ext 1" 2 0 False "''UCB''" PyNone PyNone "fst i" "snd i"
      "[3]" "fst r" "fst (snd r)" "snd (snd r)" 3 "1 / 5" b0 "[(0, 1), (2, 1 / 2), (0, 0)]" b 1
      "fst i" 0 1 "snd i" "fst m" "snd m" "[(0, 1)]" b'
      "fst i" 1 "snd i" "fst q" "snd q" "[(0, 1)]" b'']
  from c 1 2 have t: "bg_t (bandit (fst (snd r))) = 2" by simp
  from c 3 4 5 have u: "bg_n b ! 1 = 0 \<and> bg_mean b ! 1 = 0 \<and> bg_t b = 3" by simp
  from c 6 7 have v: "bg_n b' ! 1 = 0 \<and> bg_mean b' ! 1 = 0" by simp
  from c 8 9 have w: "bg_n b'' ! 1 = 0 \<and> bg_mean b'' ! 1 = 0" by simp
  show ?thesis
    by (rule exI[of _ "fst i"], rule exI[of _ "snd i"], rule exI[of _ "fst r"],
        rule exI[of _ "fst (snd r)"], rule exI[of _ "snd (snd r)"], rule exI[of _ b0],
        rule exI[of _ b], rule exI[of _ "fst m"], rule exI[of _ "snd m"], rule exI[of _ b'],
        rule exI[of _ "fst q"], rule exI[of _ "snd q"], rule exI[of _ b''])
      (use 1 2 3 4 6 7 8 9 t u v w in simp)
qed

section \<open>Evolution cadence\<close>

lemma due_steps_set:
  "set (due_steps s k) = {j. s < j \<and> j \<le> s + int k \<and> j mod 1000 = 0}"
proof -
  have img: "(\<lambda>i. s + int i) ` {1..<Suc k} = {j. s < j \<and> j \<le> s + int k}"
  proof (intro set_eqI iffI)
    fix j assume "j \<in> (\<lambda>i. s + int i) ` {1..<Suc k}"
    then show "j \<in> {j. s < j \<and> j \<le> s + int k}" by auto
  next
    fix j assume "j \<in> {j. s < j \<and> j \<le> s + int k}"
    then have "j = s + int (nat (j - s))" and "nat (j - s) \<in> {1..<Suc k}" by auto
    then show "j \<in> (\<lambda>i. s + int i) ` {1..<Suc k}" by blast
  qed
  have "set (due_steps s k) = {j \<in> (\<lambda>i. s + int i) ` {1..<Suc k}. j mod 1000 = 0}"
    unfolding due_steps_def by (simp only: set_filter set_map set_upt)
  also have "\<dots> = {j. s < j \<and> j \<le> s + int k \<and> j mod 1000 = 0}"
    unfolding img by blast
  finally show ?thesis .
qed

lemma fit_score_partial_phases:
  "fit_score_partial e a x g =
     (case score_phase e a x of
        Inl err \<Rightarrow> Inl err
      | Inr (normalized, arm, a1) \<Rightarrow>
         (case (if step a1 mod 1000 = 0 then evolve e a1 g else Inr (a1, g)) of
            Inl err \<Rightarrow> Inl err
          | Inr (a2, g1) \<Rightarrow>
              if arm \<ge> length normalized then Inl IndexError
              else Inr (normalized ! arm, a2, g1)))"
  by (simp add: fit_score_partial_def score_phase_def Let_def split: sum.splits prod.splits)

lemma score_phase_step: "score_phase e a x = Inr (nz, arm, a1) \<Longrightarrow> step a1 = step a + 1"
  by (auto simp: score_phase_def split: sum.splits prod.splits)

lemma fit_score_partial_trigger:
  assumes "fit_score_partial e a x g = Inr (y, b, g1)"
  shows "\<exists>nz arm a1. score_phase e a x = Inr (nz, arm, a1) \<and> step a1 = step a + 1
     \<and> (if (step a + 1) mod 1000 = 0 then evolve e a1 g = Inr (b, g1) else (b, g1) = (a1, g))"
proof -
  from assms obtain nz arm a1 where sp: "score_phase e a x = Inr (nz, arm, a1)"
    by (auto simp: fit_score_partial_phases split: sum.splits)
  note st = score_phase_step[OF sp]
  from assms sp st
  have "(if (step a + 1) mod 1000 = 0 then evolve e a1 g = Inr (b, g1) else (b, g1) = (a1, g))"
    by (auto simp: fit_score_partial_phases split: sum.splits if_splits)
  with sp st show ?thesis by blast
qed

lemma run_headers_any:
  "run e a xs g = Inr (ys, b, g1) \<Longrightarrow>
     evolve_headers b =
       (if verbose a then evolve_headers a @ due_steps (step a) (length xs) else evolve_headers a)"
proof (induction xs arbitrary: a g ys)
  case Nil
  then show ?case by (simp add: due_steps_def)
next
  case (Cons x xs)
  from Cons.prems obtain y a1 g' ys' where
    f: "fit_score_partial e a x g = Inr (y, a1, g')" and r: "run e a1 xs g' = Inr (ys', b, g1)"
    by (auto split: sum.splits)
  from fit_score_partial_shape[OF f]
  have v: "verbose a1 = verbose a" and s: "step a1 = step a + 1"
    and h: "evolve_headers a1 =
       (if verbose a \<and> (step a + 1) mod 1000 = 0 then evolve_headers a @ [step a + 1]
        else evolve_headers a)"
    by simp_all
  from Cons.IH[OF r] v s h show ?case by (simp add: due_steps_Suc)
qed

lemma run_snoc:
  "run e a xs g = Inr (ys, a1, g1) \<Longrightarrow> fit_score_partial e a1 x g1 = Inr (y, b, g2) \<Longrightarrow>
     run e a (xs @ [x]) g = Inr (ys @ [y], b, g2)"
  by (induction xs arbitrary: a g ys) (auto split: sum.splits)

text \<open>
  C7: whatever the stream and whether or not the orchestrator is verbose, the instance
  that brings the step counter to \<open>k\<close> ends with an evolution cycle exactly when \<open>k\<close> is a
  multiple of 1000: the state returned is then the result of \<^verbatim>\<open>_evolve\<close> on the state
  left by the scoring phase, and otherwise it is that state itself, untouched. The counter
  advances by one per instance through every cycle, and the constructor starts it at 0, so
  the cycles fall on the positive multiples of 1000. A verbose orchestrator prints its
  header at exactly these steps.
\<close>

theorem C7_evolution_cadence:
  "(run e a pre g = Inr (ys, a', g') \<and> fit_score_partial e a' x g' = Inr (y, b, g1)
      \<longrightarrow> step b = step a + int (length pre) + 1
        \<and> (\<exists>nz arm a1. score_phase e a' x = Inr (nz, arm, a1)
              \<and> step a1 = step a + int (length pre) + 1
              \<and> (if (step a + int (length pre) + 1) mod 1000 = 0
                  then evolve e a1 g' = Inr (b, g1) else (b, g1) = (a1, g')))
        \<and> evolve_headers b =
            (if verbose a then evolve_headers a @ due_steps (step a) (length pre + 1)
             else evolve_headers a)
        \<and> set (due_steps (step a) (length pre + 1))
            = {j. step a < j \<and> j \<le> step a + int (length pre) + 1 \<and> j mod 1000 = 0})
   \<and> (AutoSAD_init e n rs vb strat fmins fmaxes = Inr (a0, g0)
      \<longrightarrow> step a0 = 0 \<and> evolve_headers a0 = [])"
proof (intro conjI impI)
  assume h: "run e a pre g = Inr (ys, a', g') \<and> fit_score_partial e a' x g' = Inr (y, b, g1)"
  then have r: "run e a pre g = Inr (ys, a', g')"
    and f: "fit_score_partial e a' x g' = Inr (y, b, g1)" by simp_all
  note rs = run_shape[OF r]
  from fit_score_partial_shape[OF f] rs
  show "step b = step a + int (length pre) + 1" by simp
  from fit_score_partial_trigger[OF f] rs
  show "\<exists>nz arm a1. score_phase e a' x = Inr (nz, arm, a1)
              \<and> step a1 = step a + int (length pre) + 1
              \<and> (if (step a + int (length pre) + 1) mod 1000 = 0
                  then evolve e a1 g' = Inr (b, g1) else (b, g1) = (a1, g'))"
    by (simp add: add.assoc)
  from run_headers_any[OF run_snoc[OF r f]]
  show "evolve_headers b =
            (if verbose a then evolve_headers a @ due_steps (step a) (length pre + 1)
             else evolve_headers a)" by simp
  show "set (due_steps (step a) (length pre + 1))
            = {j. step a < j \<and> j \<le> step a + int (length pre) + 1 \<and> j mod 1000 = 0}"
    by (simp add: due_steps_set add.commute add.left_commute)
next
  assume "AutoSAD_init e n rs vb strat fmins fmaxes = Inr (a0, g0)"
  from AutoSAD_init_shape[OF this] show "step a0 = 0" "evolve_headers a0 = []" by simp_all
qed


text \<open>
  C7 at a concrete orchestrator with two arms, not verbose, moved to step 998 and fed two
  instances: step 999 leaves the pool alone, step 1000 runs the cycle and changes it.
\<close>

theorem C7_evolution_cadence_witness:
  "\<exists>a0 g0 ys a' g' y b g1 nz arm a1.
     AutoSAD_init (toy_ext 1) 2 0 False ''UCB'' PyNone PyNone = Inr (a0, g0) \<and> step a0 = 0
     \<and> run (toy_ext 1) (a0\<lparr>step := 998\<rparr>) [0] g0 = Inr (ys, a', g')
     \<and> step a' = 999 \<and> model_params a' = model_params a0 \<and> g' = g0
     \<and> fit_score_partial (toy_ext 1) a' 0 g' = Inr (y, b, g1) \<and> step b = 1000
     \<and> score_phase (toy_ext 1) a' 0 = Inr (nz, arm, a1)
     \<and> evolve (toy_ext 1) a1 g' = Inr (b, g1)
     \<and> model_params b \<noteq> model_params a1 \<and> evolve_headers b = []"
proof -
  define i where "i = projr (AutoSAD_init (toy_ext 1) 2 0 False ''UCB'' PyNone PyNone)"
  define r where "r = projr (run (toy_ext 1) ((fst i)\<lparr>step := 998\<rparr>) [0] (snd i))"
  define f where "f = projr (fit_score_partial (toy_ext 1) (fst (snd r)) 0 (snd (snd r)))"
  define sp where "sp = projr (score_phase (toy_ext 1) (fst (snd r)) 0)"
  have 1: "AutoSAD_init (toy_ext 1) 2 0 False ''UCB'' PyNone PyNone = Inr (fst i, snd i)"
    unfolding i_def by (simp add: ev)
  have 2: "run (toy_ext 1) ((fst i)\<lparr>step := 998\<rparr>) [0] (snd i) = Inr (fst r, fst (snd r), snd (snd r))"
    "model_params (fst (snd r)) = model_params (fst i)" "snd (snd r) = snd i"
    unfolding r_def i_def by (simp_all add: ev)
  have 3: "fit_score_partial (toy_ext 1) (fst (snd r)) 0 (snd (snd r)) = Inr (fst f, fst (snd f), snd (snd f))"
    unfolding f_def r_def i_def by (simp add: ev ev2 ev3)
  have 4: "model_params (fst (snd f)) \<noteq> model_params (snd (snd sp))"
    unfolding f_def sp_def r_def i_def by (simp add: ev ev2 ev3 score_phase_def)
  note c = C7_evolution_cadence[of "toy_ext 1" "(fst i)\<lparr>step := 998\<rparr>" "[0]" "snd i" "fst r"
      "fst (snd r)" "snd (snd r)" 0 "fst f" "fst (snd f)" "snd (snd f)"
      2 0 False "''UCB''" PyNone PyNone "fst i" "snd i"]
  from c 1 have 5: "step (fst i) = 0" by simp
  note cA = c[THEN conjunct1, THEN mp, OF conjI[OF 2(1) 3]]
  from cA have 60: "step (fst (snd f)) = 1000"
    and 63: "evolve_headers (fst (snd f)) = evolve_headers ((fst i)\<lparr>step := 998\<rparr>)"
    unfolding i_def by (simp_all add: ev)
  from cA obtain nz arm a1 where
    61: "score_phase (toy_ext 1) (fst (snd r)) 0 = Inr (nz, arm, a1)"
    and 62: "evolve (toy_ext 1) a1 (snd (snd r)) = Inr (fst (snd f), snd (snd f))"
    by auto
  note 6 = 60 61 62 63
  from 61 have 7: "a1 = snd (snd sp)" unfolding sp_def by simp
  have 8: "evolve_headers (fst i) = []" "step (fst (snd r)) = 999"
    unfolding r_def i_def by (simp_all add: ev)
  show ?thesis
    by (rule exI[of _ "fst i"], rule exI[of _ "snd i"], rule exI[of _ "fst r"],
        rule exI[of _ "fst (snd r)"], rule exI[of _ "snd (snd r)"], rule exI[of _ "fst f"],
        rule exI[of _ "fst (snd f)"], rule exI[of _ "snd (snd f)"], rule exI[of _ nz],
        rule exI[of _ arm], rule exI[of _ a1])
      (use 1 2 3 4 5 6 7 8 in simp)
qed

section \<open>Pool size\<close>

text \<open>
  C8: after any number of processed instances (and the evolution cycles they trigger) the
  pool, its configurations, its normalisers and the bandit's arrays all have exactly the
  \<open>n\<close> entries the orchestrator was constructed with.
\<close>

theorem C8_pool_size:
  assumes "AutoSAD_init e n rs vb strat fmins fmaxes = Inr (a0, g0)"
    and "run e a0 xs g0 = Inr (ys, a, g)"
  shows "n_models a = n \<and> int (length (models a)) = n
     \<and> int (length (model_params a)) = n \<and> int (length (scores a)) = n
     \<and> int (length (bg_n (bandit a))) = n \<and> int (length (bg_mean (bandit a))) = n"
  using AutoSAD_init_shape[OF assms(1)] run_shape[OF assms(2)] by simp

text \<open>C8 at a concrete orchestrator with two arms.\<close>

theorem C8_pool_size_witness:
  "\<exists>a0 g0 ys a g. AutoSAD_init (toy_ext 1) 2 0 False ''UCB'' PyNone PyNone = Inr (a0, g0)
     \<and> run (toy_ext 1) a0 [3, 4] g0 = Inr (ys, a, g)
     \<and> map fst (models a) = [HalfSpaceTrees, OnlineIsolationForest]
     \<and> int (length (models a)) = 2"
proof -
  define i where "i = projr (AutoSAD_init (toy_ext 1) 2 0 False ''UCB'' PyNone PyNone)"
  define r where "r = projr (run (toy_ext 1) (fst i) [3, 4] (snd i))"
  have 1: "AutoSAD_init (toy_ext 1) 2 0 False ''UCB'' PyNone PyNone = Inr (fst i, snd i)"
    unfolding i_def by (simp add: ev numeral_2_eq_2)
  have 2: "run (toy_ext 1) (fst i) [3, 4] (snd i) = Inr (fst r, fst (snd r), snd (snd r))"
    unfolding r_def i_def by (simp add: ev numeral_2_eq_2)
  have 3: "map fst (models (fst (snd r))) = [HalfSpaceTrees, OnlineIsolationForest]"
    unfolding r_def i_def by (simp add: ev numeral_2_eq_2)
  from C8_pool_size[OF 1 2] have 4: "int (length (models (fst (snd r)))) = 2" by simp
  show ?thesis
    by (rule exI[of _ "fst i"], rule exI[of _ "snd i"], rule exI[of _ "fst r"],
        rule exI[of _ "fst (snd r)"], rule exI[of _ "snd (snd r)"]) (intro conjI 1 2 3 4)
qed

section \<open>Mutation\<close>


text \<open>
  C6, as the claim states it, fails: \<^verbatim>\<open>mutate\<close> on a HalfSpaceTrees arm whose configuration
  lacks the grid parameter \<^verbatim>\<open>max_depth\<close> raises nothing; it returns a new configuration in
  which the parameter is still absent and the other grid parameters are resampled.
\<close>

theorem C6_absent_parameter_fatal_counterexample:
  "\<exists>a0 g0 m' ps' g'.
     AutoSAD_init (toy_ext 1) 1 0 False ''UCB'' PyNone PyNone = Inr (a0, g0)
     \<and> models a0 = [(HalfSpaceTrees, ())]
     \<and> ''max_depth'' \<in> fst ` set (get_hyperparameter_options HalfSpaceTrees)
     \<and> mutate (toy_ext 1) a0 (HalfSpaceTrees, ())
           [(''random_state'', PyInt 0), (''num_trees'', NpInt 16), (''window_size'', NpInt 200)] g0
         = Inr ((m', ps'), g')
     \<and> map_of ps' ''max_depth'' = None
     \<and> map_of ps' ''num_trees'' = Some (NpInt 128)"
  by (simp add: ev ev3)

text \<open>
  C6, amended: \<^verbatim>\<open>mutate\<close> skips a grid parameter that is absent from the arm's
  configuration (the guard \<^verbatim>\<open>if p in params\<close>): it stays absent in the new configuration
  and is no error. Every grid parameter that is present gets the value the sampler returns
  for its current value; \<^verbatim>\<open>random_state\<close> is set to the orchestrator's seed; for a
  HalfSpaceTrees arm the two feature-scaling parameters are set to the orchestrator's
  vectors and for the other variants they are copied unchanged. \<^verbatim>\<open>mutate\<close> raises only the
  error that the sampler raises on a parameter that is present.
\<close>

theorem C6_mutate_absent_parameter:
  "(mutate e a model ps g = Inr ((m', ps'), g')
      \<longrightarrow> m' = (fst model, construct e (fst model) ps')
        \<and> (\<forall>(p, vals) \<in> set (get_hyperparameter_options (fst model)).
              (map_of ps p = None \<longrightarrow> map_of ps' p = None)
              \<and> (\<forall>cur. map_of ps p = Some cur \<longrightarrow>
                    (\<exists>g1 g2 v. pwhs e cur vals (exploration_std a) g1 = Inr (v, g2)
                       \<and> map_of ps' p = Some v)))
        \<and> map_of ps' ''random_state'' = Some (PyInt (random_state a))
        \<and> (fst model = HalfSpaceTrees \<longrightarrow>
              map_of ps' ''feature_mins'' = Some (feature_mins a)
              \<and> map_of ps' ''feature_maxes'' = Some (feature_maxes a))
        \<and> (fst model \<noteq> HalfSpaceTrees \<longrightarrow>
              map_of ps' ''feature_mins'' = map_of ps ''feature_mins''
              \<and> map_of ps' ''feature_maxes'' = map_of ps ''feature_maxes''))
   \<and> (mutate e a model ps g = Inl err
      \<longrightarrow> (\<exists>(p, vals) \<in> set (get_hyperparameter_options (fst model)).
             \<exists>cur g1. map_of ps p = Some cur \<and> pwhs e cur vals (exploration_std a) g1 = Inl err))"
proof (intro conjI impI)
  assume m: "mutate e a model ps g = Inr ((m', ps'), g')"
  from mutate_Inr[OF m] show "m' = (fst model, construct e (fst model) ps')" by blast
  from mutate_grid_param[OF m]
  show "\<forall>(p, vals) \<in> set (get_hyperparameter_options (fst model)).
              (map_of ps p = None \<longrightarrow> map_of ps' p = None)
              \<and> (\<forall>cur. map_of ps p = Some cur \<longrightarrow>
                    (\<exists>g1 g2 v. pwhs e cur vals (exploration_std a) g1 = Inr (v, g2)
                       \<and> map_of ps' p = Some v))" by blast
  from mutate_other_params[OF m]
  show "map_of ps' ''random_state'' = Some (PyInt (random_state a))" by blast
  {
    assume "fst model = HalfSpaceTrees"
    with mutate_other_params[OF m]
    show "map_of ps' ''feature_mins'' = Some (feature_mins a)"
      "map_of ps' ''feature_maxes'' = Some (feature_maxes a)" by blast+
  }
  {
    assume "fst model \<noteq> HalfSpaceTrees"
    with mutate_other_params[OF m]
    show "map_of ps' ''feature_mins'' = map_of ps ''feature_mins''"
      "map_of ps' ''feature_maxes'' = map_of ps ''feature_maxes''" by blast+
  }
next
  assume "mutate e a model ps g = Inl err"
  from mutate_Inl[OF this]
  show "\<exists>(p, vals) \<in> set (get_hyperparameter_options (fst model)).
             \<exists>cur g1. map_of ps p = Some cur \<and> pwhs e cur vals (exploration_std a) g1 = Inl err" .
qed

text \<open>The amended C6 at a configuration without \<^verbatim>\<open>max_depth\<close>, and at one whose value makes the sampler raise.\<close>

theorem C6_mutate_absent_parameter_witness:
  "\<exists>a0 g0 m' ps' g' err.
     AutoSAD_init (toy_ext 1) 1 0 False ''UCB'' PyNone PyNone = Inr (a0, g0)
     \<and> mutate (toy_ext 1) a0 (HalfSpaceTrees, ())
           [(''random_state'', PyInt 7), (''num_trees'', NpInt 16), (''window_size'', NpInt 200)] g0
         = Inr ((m', ps'), g')
     \<and> map_of ps' ''max_depth'' = None
     \<and> map_of ps' ''random_state'' = Some (PyInt 0)
     \<and> map_of ps' ''feature_mins'' = Some PyNone
     \<and> mutate (toy_ext 1) a0 (LODA, ())
           [(''num_bins'', PyStr ''many''), (''num_random_cuts'', NpInt 5)] g0 = Inl err
     \<and> pwhs (toy_ext 1) (PyStr ''many'') (ints [50, 100, 150, 200]) (exploration_std a0) g0 = Inl err
     \<and> (\<exists>(p, vals) \<in> set (get_hyperparameter_options LODA).
           \<exists>cur g1. map_of [(''num_bins'', PyStr ''many''), (''num_random_cuts'', NpInt 5)] p = Some cur
              \<and> pwhs (toy_ext 1) cur vals (exploration_std a0) g1 = Inl err)"
proof -
  define i where "i = projr (AutoSAD_init (toy_ext 1) 1 0 False ''UCB'' PyNone PyNone)"
  define ps where "ps = [(''random_state'', PyInt 7), (''num_trees'', NpInt 16), (''window_size'', NpInt 200)]"
  define qs where "qs = [(''num_bins'', PyStr ''many''), (''num_random_cuts'', NpInt 5)]"
  define r where "r = projr (mutate (toy_ext 1) (fst i) (HalfSpaceTrees, ()) ps (snd i))"
  have 1: "AutoSAD_init (toy_ext 1) 1 0 False ''UCB'' PyNone PyNone = Inr (fst i, snd i)"
    "random_state (fst i) = 0" "feature_mins (fst i) = PyNone"
    unfolding i_def by (simp_all add: ev)
  have 2: "mutate (toy_ext 1) (fst i) (HalfSpaceTrees, ()) ps (snd i)
      = Inr ((fst (fst r), snd (fst r)), snd r)"
    unfolding r_def i_def ps_def by (simp add: ev ev3)
  have 3: "mutate (toy_ext 1) (fst i) (LODA, ()) qs (snd i) = Inl ValueError"
    "pwhs (toy_ext 1) (PyStr ''many'') (ints [50, 100, 150, 200]) (exploration_std (fst i)) (snd i)
       = Inl ValueError"
    unfolding i_def qs_def by (simp_all add: ev ev3)
  note c = C6_mutate_absent_parameter[of "toy_ext 1" "fst i" "(HalfSpaceTrees, ())" ps "snd i"
      "fst (fst r)" "snd (fst r)" "snd r"]
  have "(''max_depth'', ints [5, 8, 10, 12, 15]) \<in> set (get_hyperparameter_options HalfSpaceTrees)"
    "map_of ps ''max_depth'' = None"
    by (simp_all add: ps_def)
  with c 2 1 have 4: "map_of (snd (fst r)) ''max_depth'' = None"
    "map_of (snd (fst r)) ''random_state'' = Some (PyInt 0)"
    "map_of (snd (fst r)) ''feature_mins'' = Some PyNone"
    by auto
  from C6_mutate_absent_parameter[of "toy_ext 1" "fst i" "(LODA, ())" qs "snd i" _ _ _ ValueError] 3(1)
  have 5: "\<exists>(p, vals) \<in> set (get_hyperparameter_options LODA).
           \<exists>cur g1. map_of qs p = Some cur
              \<and> pwhs (toy_ext 1) cur vals (exploration_std (fst i)) g1 = Inl ValueError"
    by simp
  show ?thesis
    by (rule exI[of _ "fst i"], rule exI[of _ "snd i"], rule exI[of _ "fst (fst r)"],
        rule exI[of _ "snd (fst r)"], rule exI[of _ "snd r"], rule exI[of _ ValueError])
      (use 1 2 3 4 5 in \<open>simp add: ps_def qs_def\<close>)
qed



section \<open>The decay update\<close>







end
